theory Spec2Isabelle
  imports Main
begin

section \<open>Strings and the platform primitives the router calls\<close>

text \<open>
  A JavaScript string is modelled as a \<^typ>\<open>string\<close>, read as the UTF-8 bytes of the text; on
  ASCII text (HTTP request lines, route patterns) a byte is a character. \<open>split_on\<close> is
  \<^verbatim>\<open>String.prototype.split\<close> with a one-character separator: it always returns at least one
  piece, and \<^verbatim>\<open>"".split("/")\<close> is \<^verbatim>\<open>[""]\<close>.
\<close>

fun split_on :: "char \<Rightarrow> string \<Rightarrow> string list" where
  "split_on sep [] = [[]]"
| "split_on sep (c # cs) =
     (if c = sep then [] # split_on sep cs
      else (case split_on sep cs of
              [] \<Rightarrow> [[c]]
            | w # ws \<Rightarrow> (c # w) # ws))"

text \<open>\<^verbatim>\<open>Array.prototype.join\<close>.\<close>

fun join_with :: "string \<Rightarrow> string list \<Rightarrow> string" where
  "join_with sep [] = []"
| "join_with sep [x] = x"
| "join_with sep (x # y # ys) = x @ sep @ join_with sep (y # ys)"

text \<open>Reading an array at an index: \<^verbatim>\<open>undefined\<close> (here \<open>None\<close>) out of range.\<close>

fun nth_opt :: "'a list \<Rightarrow> nat \<Rightarrow> 'a option" where
  "nth_opt [] n = None"
| "nth_opt (x # xs) 0 = Some x"
| "nth_opt (x # xs) (Suc n) = nth_opt xs n"

text \<open>
  \<^verbatim>\<open>String.prototype.toUpperCase\<close> on the ASCII letters; an HTTP method is an ASCII token.
\<close>

definition upper_char :: "char \<Rightarrow> char" where
  "upper_char c =
     (if 97 \<le> (of_char c :: nat) \<and> (of_char c :: nat) \<le> 122
      then char_of ((of_char c :: nat) - 32) else c)"

definition toUpperCase :: "string \<Rightarrow> string" where
  "toUpperCase s = map upper_char s"

text \<open>
  \<^verbatim>\<open>String.prototype.toLowerCase\<close> on the ASCII letters; the name of an HTTP header is an
  ASCII token.
\<close>

definition lower_char :: "char \<Rightarrow> char" where
  "lower_char c =
     (if 65 \<le> (of_char c :: nat) \<and> (of_char c :: nat) \<le> 90
      then char_of ((of_char c :: nat) + 32) else c)"

definition toLowerCase :: "string \<Rightarrow> string" where
  "toLowerCase s = map lower_char s"

text \<open>
  A thrown JavaScript value: an \<^verbatim>\<open>Error\<close> instance with its message, or any other value.
  \<^verbatim>\<open>decodeURIComponent\<close> throws a \<^verbatim>\<open>URIError\<close>, which is an \<^verbatim>\<open>Error\<close>.
\<close>

datatype thrown = ErrorObject string | NonError

definition URIError :: thrown where
  "URIError = ErrorObject ''URI malformed''"

subsection \<open>\<^verbatim>\<open>decodeURIComponent\<close>\<close>

text \<open>
  The decoder of ECMA-262 (the abstract operation Decode with an empty set of preserved
  characters): a character other than \<^verbatim>\<open>%\<close> is copied; \<^verbatim>\<open>%\<close> must be followed by two
  hexadecimal digits; an octet below 128 is the character itself; a higher octet must
  start a well-formed UTF-8 sequence whose other octets are escapes too. Every failure
  throws \<^verbatim>\<open>URIError\<close>, here the value \<open>None\<close>.
\<close>

definition hex_digit :: "char \<Rightarrow> nat option" where
  "hex_digit c =
     (let n = (of_char c :: nat) in
      if 48 \<le> n \<and> n \<le> 57 then Some (n - 48)
      else if 65 \<le> n \<and> n \<le> 70 then Some (n - 55)
      else if 97 \<le> n \<and> n \<le> 102 then Some (n - 87)
      else None)"

text \<open>One escape \<^verbatim>\<open>%XY\<close> at the head of the text: its octet and the text after it.\<close>

fun read_escape :: "string \<Rightarrow> (nat \<times> string) option" where
  "read_escape (p # h1 # h2 # rest) =
     (if p = CHR ''%'' then
        (case hex_digit h1 of
           None \<Rightarrow> None
         | Some a \<Rightarrow>
             (case hex_digit h2 of
                None \<Rightarrow> None
              | Some b \<Rightarrow> Some (16 * a + b, rest)))
      else None)"
| "read_escape _ = None"

text \<open>The next \<open>n\<close> escapes: their octets and the text after them.\<close>

fun read_escapes :: "nat \<Rightarrow> string \<Rightarrow> (nat list \<times> string) option" where
  "read_escapes 0 s = Some ([], s)"
| "read_escapes (Suc n) s =
     (case read_escape s of
        None \<Rightarrow> None
      | Some (b, rest) \<Rightarrow>
          (case read_escapes n rest of
             None \<Rightarrow> None
           | Some (bs, rest') \<Rightarrow> Some (b # bs, rest')))"

text \<open>The number of octets a leading octet announces (its leading one bits).\<close>

definition leading_ones :: "nat \<Rightarrow> nat" where
  "leading_ones b =
     (if b < 128 then 0 else if b < 192 then 1 else if b < 224 then 2
      else if b < 240 then 3 else if b < 248 then 4 else 5)"

definition continuation :: "nat \<Rightarrow> bool" where
  "continuation b = (128 \<le> b \<and> b \<le> 191)"

text \<open>The well-formed UTF-8 sequences of two to four octets (Unicode, table 3-7).\<close>

fun utf8_valid :: "nat list \<Rightarrow> bool" where
  "utf8_valid [b0, b1] = (194 \<le> b0 \<and> b0 \<le> 223 \<and> continuation b1)"
| "utf8_valid [b0, b1, b2] =
     (((b0 = 224 \<and> 160 \<le> b1 \<and> b1 \<le> 191)
       \<or> (225 \<le> b0 \<and> b0 \<le> 236 \<and> continuation b1)
       \<or> (b0 = 237 \<and> 128 \<le> b1 \<and> b1 \<le> 159)
       \<or> (238 \<le> b0 \<and> b0 \<le> 239 \<and> continuation b1))
      \<and> continuation b2)"
| "utf8_valid [b0, b1, b2, b3] =
     (((b0 = 240 \<and> 144 \<le> b1 \<and> b1 \<le> 191)
       \<or> (241 \<le> b0 \<and> b0 \<le> 243 \<and> continuation b1)
       \<or> (b0 = 244 \<and> 128 \<le> b1 \<and> b1 \<le> 143))
      \<and> continuation b2 \<and> continuation b3)"
| "utf8_valid _ = False"

lemma read_escape_shorter: "read_escape s = Some (b, rest) \<Longrightarrow> length rest < length s"
  by (induction s rule: read_escape.induct) (auto split: if_splits option.splits)

lemma read_escapes_shorter: "read_escapes n s = Some (bs, rest) \<Longrightarrow> length rest \<le> length s"
proof (induction n arbitrary: s bs rest)
  case 0
  then show ?case by simp
next
  case (Suc n)
  then show ?case
    by (fastforce split: option.splits dest: read_escape_shorter)
qed

function decodeURIComponent :: "string \<Rightarrow> string option" where
  "decodeURIComponent [] = Some []"
| "decodeURIComponent (c # cs) =
     (if c \<noteq> CHR ''%'' then map_option ((#) c) (decodeURIComponent cs)
      else
        (case read_escape (c # cs) of
           None \<Rightarrow> None
         | Some (b, rest) \<Rightarrow>
             (if leading_ones b = 0 then map_option ((#) (char_of b)) (decodeURIComponent rest)
              else if leading_ones b = 1 \<or> 4 < leading_ones b then None
              else
                (case read_escapes (leading_ones b - 1) rest of
                   None \<Rightarrow> None
                 | Some (bs, rest') \<Rightarrow>
                     (if utf8_valid (b # bs)
                      then map_option ((@) (map char_of (b # bs))) (decodeURIComponent rest')
                      else None)))))"
  by pat_completeness auto
termination
proof (relation "measure length")
  show "wf (measure length)" by simp
next
  fix c :: char and cs
  show "(cs, c # cs) \<in> measure length" by simp
next
  fix c :: char and cs x2 x y
  assume "read_escape (c # cs) = Some x2" and "(x, y) = x2"
  then have "length y < length (c # cs)"
    using read_escape_shorter [of "c # cs" x y] by simp
  then show "(y, c # cs) \<in> measure length" by simp
next
  fix c :: char and cs x2 x y x2a xa ya
  assume a: "read_escape (c # cs) = Some x2" "(x, y) = x2"
    and b: "read_escapes (leading_ones x - 1) y = Some x2a" "(xa, ya) = x2a"
  have "length y < length (c # cs)"
    using a read_escape_shorter [of "c # cs" x y] by simp
  moreover have "length ya \<le> length y"
    using b read_escapes_shorter [of "leading_ones x - 1" y xa ya] by simp
  ultimately show "(ya, c # cs) \<in> measure length" by simp
qed

section \<open>The router\<close>

subsection \<open>\<^verbatim>\<open>parseQueryString\<close>\<close>

text \<open>
  The record \<^verbatim>\<open>Record<string, string>\<close> is a map from keys to values: the own properties
  of an object created by \<^verbatim>\<open>{}\<close>. The assignment \<^verbatim>\<open>obj[key] = value\<close> of a string creates or
  overwrites the property \<^verbatim>\<open>key\<close>, for every key but \<^verbatim>\<open>__proto__\<close>: that one is an accessor
  of \<^verbatim>\<open>Object.prototype\<close>, whose setter ignores a value that is not an object, so that the
  assignment leaves the record as it was.
\<close>

definition record_set ::
  "(string \<rightharpoonup> string) \<Rightarrow> string \<Rightarrow> string \<Rightarrow> (string \<rightharpoonup> string)" where
  "record_set obj key v = (if key = ''__proto__'' then obj else obj(key \<mapsto> v))"

text \<open>
  The loop of the source is \<open>parseQueryString_loop\<close>, over the pairs left and the record
  built so far; the destructuring \<^verbatim>\<open>[key, value] = pair.split("=")\<close> reads the pieces at
  indices 0 and 1. Key and value are decoded before the assignment is made.
\<close>

fun parseQueryString_loop ::
  "string list \<Rightarrow> (string \<rightharpoonup> string) \<Rightarrow> thrown + (string \<rightharpoonup> string)" where
  "parseQueryString_loop [] query = Inr query"
| "parseQueryString_loop (pair # pairs) query =
     (let parts = split_on CHR ''='' pair;
          key = nth_opt parts 0;
          val = nth_opt parts 1
      in (case key of
            None \<Rightarrow> parseQueryString_loop pairs query
          | Some k \<Rightarrow>
              if k \<noteq> [] then
                (case decodeURIComponent k of
                   None \<Rightarrow> Inl URIError
                 | Some dk \<Rightarrow>
                     (case (case val of
                              None \<Rightarrow> Some []
                            | Some v \<Rightarrow> if v \<noteq> [] then decodeURIComponent v else Some []) of
                        None \<Rightarrow> Inl URIError
                      | Some dv \<Rightarrow> parseQueryString_loop pairs (record_set query dk dv)))
              else parseQueryString_loop pairs query))"

definition parseQueryString :: "string \<Rightarrow> thrown + (string \<rightharpoonup> string)" where
  "parseQueryString queryString =
     (if queryString = [] then Inr Map.empty
      else parseQueryString_loop (split_on CHR ''&'' queryString) Map.empty)"

subsection \<open>\<^verbatim>\<open>matchPath\<close>\<close>

text \<open>\<^verbatim>\<open>s.split("/").filter(Boolean)\<close>: the non-empty pieces between slashes.\<close>

definition path_parts :: "string \<Rightarrow> string list" where
  "path_parts s = filter (\<lambda>part. part \<noteq> []) (split_on CHR ''/'' s)"

definition startsWith_colon :: "string \<Rightarrow> bool" where
  "startsWith_colon s = (case s of [] \<Rightarrow> False | c # _ \<Rightarrow> c = CHR '':'')"

text \<open>
  The loop over the positions of the pattern, which the length test has made the positions
  of the path too, with the parameters bound so far. It returns at the first literal
  mismatch with the parameters already bound. \<^verbatim>\<open>params\<close> is a record created by \<^verbatim>\<open>{}\<close>, and
  \<^verbatim>\<open>params[patternPart.slice(1)] = pathPart\<close> is an assignment to it.
\<close>

fun matchPath_loop ::
  "(string \<times> string) list \<Rightarrow> (string \<rightharpoonup> string) \<Rightarrow> bool \<times> (string \<rightharpoonup> string)" where
  "matchPath_loop [] params = (True, params)"
| "matchPath_loop ((patternPart, pathPart) # rest) params =
     (if startsWith_colon patternPart
      then matchPath_loop rest (record_set params (drop 1 patternPart) pathPart)
      else if patternPart \<noteq> pathPart then (False, params)
      else matchPath_loop rest params)"

definition matchPath :: "string \<Rightarrow> string \<Rightarrow> bool \<times> (string \<rightharpoonup> string)" where
  "matchPath pattern path =
     (let patternParts = path_parts pattern;
          pathParts = path_parts path
      in if length patternParts \<noteq> length pathParts then (False, Map.empty)
         else matchPath_loop (zip patternParts pathParts) Map.empty)"

subsection \<open>\<^verbatim>\<open>joinPaths\<close>\<close>

text \<open>\<^verbatim>\<open>p.replace(/^\/+|\/+$/g, "")\<close>: the leading and the trailing slashes removed.\<close>

definition strip_slashes :: "string \<Rightarrow> string" where
  "strip_slashes p =
     rev (dropWhile (\<lambda>c. c = CHR ''/'') (rev (dropWhile (\<lambda>c. c = CHR ''/'') p)))"

definition joinPaths :: "string list \<Rightarrow> string" where
  "joinPaths paths =
     (let joined = join_with ''/'' (filter (\<lambda>p. p \<noteq> []) (map strip_slashes paths))
      in ''/'' @ joined)"

subsection \<open>The route tree and \<^verbatim>\<open>findRoute\<close>\<close>

text \<open>
  A node of the tree is tagged \<^verbatim>\<open>server\<close>, \<^verbatim>\<open>route\<close>, \<^verbatim>\<open>method\<close> or \<^verbatim>\<open>middleware\<close>. The
  handlers and the middlewares are values of the types \<open>'h\<close> and \<open>'m\<close>; resolution never
  calls them. The path of a method node is optional.
\<close>

datatype ('h, 'm) ServerNode =
    ServerRoot nat "('h, 'm) ServerNode list" "'m list"
  | RouteNode string "('h, 'm) ServerNode list" "'m list"
  | MethodNode string 'h "string option"
  | MiddlewareNode 'm


text \<open>\<^verbatim>\<open>node.children || []\<close> and \<^verbatim>\<open>node.middlewares || []\<close>.\<close>

fun node_children :: "('h, 'm) ServerNode \<Rightarrow> ('h, 'm) ServerNode list" where
  "node_children (ServerRoot port children mws) = children"
| "node_children (RouteNode rpath children mws) = children"
| "node_children (MethodNode m h p) = []"
| "node_children (MiddlewareNode mw) = []"

fun node_middlewares :: "('h, 'm) ServerNode \<Rightarrow> 'm list" where
  "node_middlewares (ServerRoot port children mws) = mws"
| "node_middlewares (RouteNode rpath children mws) = mws"
| "node_middlewares (MethodNode m h p) = []"
| "node_middlewares (MiddlewareNode mw) = []"

text \<open>
  The fields of a node by its tag: the path of a route node, and the method and the
  optional path of a method node.
\<close>

fun is_route :: "('h, 'm) ServerNode \<Rightarrow> bool" where
  "is_route (RouteNode rpath children mws) = True"
| "is_route (ServerRoot port children mws) = False"
| "is_route (MethodNode m h p) = False"
| "is_route (MiddlewareNode mw) = False"

fun is_method :: "('h, 'm) ServerNode \<Rightarrow> bool" where
  "is_method (MethodNode m h p) = True"
| "is_method (ServerRoot port children mws) = False"
| "is_method (RouteNode rpath children mws) = False"
| "is_method (MiddlewareNode mw) = False"

fun route_path :: "('h, 'm) ServerNode \<Rightarrow> string" where
  "route_path (RouteNode rpath children mws) = rpath"
| "route_path (ServerRoot port children mws) = []"
| "route_path (MethodNode m h p) = []"
| "route_path (MiddlewareNode mw) = []"

fun endpoint_method :: "('h, 'm) ServerNode \<Rightarrow> string" where
  "endpoint_method (MethodNode m h p) = m"
| "endpoint_method (ServerRoot port children mws) = []"
| "endpoint_method (RouteNode rpath children mws) = []"
| "endpoint_method (MiddlewareNode mw) = []"

fun endpoint_path :: "('h, 'm) ServerNode \<Rightarrow> string option" where
  "endpoint_path (MethodNode m h p) = p"
| "endpoint_path (ServerRoot port children mws) = None"
| "endpoint_path (RouteNode rpath children mws) = None"
| "endpoint_path (MiddlewareNode mw) = None"

record ('h, 'm) MatchedRoute =
  matched_node :: "('h, 'm) ServerNode"
  matched_params :: "string \<rightharpoonup> string"
  matched_middlewares :: "'m list"

text \<open>
  \<^verbatim>\<open>methodNode.path ? joinPaths(base, methodNode.path) : base\<close>: an absent and an empty
  path are both falsy.
\<close>

definition checkPath_of :: "string \<Rightarrow> string option \<Rightarrow> string" where
  "checkPath_of base p =
     (case p of
        None \<Rightarrow> base
      | Some suffix \<Rightarrow> if suffix \<noteq> [] then joinPaths [base, suffix] else base)"

text \<open>
  The test of one method node, shared by the two places of \<^verbatim>\<open>findRoute\<close> that make it:
  the method is compared first, then the path is matched.
\<close>

definition method_matches ::
  "string \<Rightarrow> string \<Rightarrow> string \<Rightarrow> string \<Rightarrow> string option \<Rightarrow> (string \<rightharpoonup> string) option" where
  "method_matches method path base m p =
     (if m = method then
        (let checkPath = checkPath_of base p;
             (match, params) = matchPath checkPath path
         in if match then Some params else None)
      else None)"

text \<open>
  The inner loop of \<^verbatim>\<open>findRoute\<close> over the children of a route node: the first method
  node among them that matches, with the middlewares accumulated down to the route.
\<close>

fun findRoute_methods ::
  "('h, 'm) ServerNode list \<Rightarrow> string \<Rightarrow> string \<Rightarrow> string \<Rightarrow> 'm list
     \<Rightarrow> ('h, 'm) MatchedRoute option" where
  "findRoute_methods [] method path fullPath accumulatedMiddlewares = None"
| "findRoute_methods (MethodNode m h p # children) method path fullPath accumulatedMiddlewares =
     (case method_matches method path fullPath m p of
        Some params \<Rightarrow>
          Some \<lparr>matched_node = MethodNode m h p, matched_params = params,
                matched_middlewares = accumulatedMiddlewares\<rparr>
      | None \<Rightarrow> findRoute_methods children method path fullPath accumulatedMiddlewares)"
| "findRoute_methods (child # children) method path fullPath accumulatedMiddlewares =
     findRoute_methods children method path fullPath accumulatedMiddlewares"

fun findRoute ::
  "('h, 'm) ServerNode list \<Rightarrow> string \<Rightarrow> string \<Rightarrow> string \<Rightarrow> 'm list
     \<Rightarrow> ('h, 'm) MatchedRoute option" where
  "findRoute [] method path basePath middlewares = None"
| "findRoute (RouteNode rpath children rmws # nodes) method path basePath middlewares =
     (let fullPath = joinPaths [basePath, rpath];
          accumulatedMiddlewares = middlewares @ rmws
      in (case findRoute_methods children method path fullPath accumulatedMiddlewares of
            Some found \<Rightarrow> Some found
          | None \<Rightarrow>
              (case findRoute children method path fullPath accumulatedMiddlewares of
                 Some nestedResult \<Rightarrow> Some nestedResult
               | None \<Rightarrow> findRoute nodes method path basePath middlewares)))"
| "findRoute (MethodNode m h p # nodes) method path basePath middlewares =
     (case method_matches method path basePath m p of
        Some params \<Rightarrow>
          Some \<lparr>matched_node = MethodNode m h p, matched_params = params,
                matched_middlewares = middlewares\<rparr>
      | None \<Rightarrow> findRoute nodes method path basePath middlewares)"
| "findRoute (node # nodes) method path basePath middlewares =
     findRoute nodes method path basePath middlewares"

subsection \<open>\<^verbatim>\<open>parseBody\<close>\<close>

text \<open>
  The values handlers return and bodies decode to; \<open>Undefined\<close> is \<^verbatim>\<open>undefined\<close>, the
  "no value" sentinel. A promise is pending, resolved with a value, or rejected with a
  thrown value. The request stream is the list of the events it emits, in order; the
  listeners of \<^verbatim>\<open>parseBody\<close> run on them one by one, and the promise settles at the first
  \<^verbatim>\<open>end\<close> or \<^verbatim>\<open>error\<close>. \<^verbatim>\<open>JSON.parse\<close> is a parameter: \<open>None\<close> when it throws.
\<close>

datatype jsvalue =
    Undefined
  | JNull
  | JBool bool
  | JNumber int
  | JString string
  | JArray "jsvalue list"
  | JObject "(string \<times> jsvalue) list"

datatype 'a promise = Pending | Resolved 'a | Rejected thrown

datatype stream_event = Data string | End | StreamError

fun parseBody_events ::
  "(string \<Rightarrow> jsvalue option) \<Rightarrow> stream_event list \<Rightarrow> string list \<Rightarrow> jsvalue promise" where
  "parseBody_events JSON_parse [] chunks = Pending"
| "parseBody_events JSON_parse (Data chunk # events) chunks =
     parseBody_events JSON_parse events (chunks @ [chunk])"
| "parseBody_events JSON_parse (End # events) chunks =
     (let body = concat chunks
      in if body = [] then Resolved Undefined
         else (case JSON_parse body of
                 Some v \<Rightarrow> Resolved v
               | None \<Rightarrow> Resolved (JString body)))"
| "parseBody_events JSON_parse (StreamError # events) chunks = Resolved Undefined"

definition parseBody :: "(string \<Rightarrow> jsvalue option) \<Rightarrow> stream_event list \<Rightarrow> jsvalue promise" where
  "parseBody JSON_parse events = parseBody_events JSON_parse events []"

subsection \<open>The response, middlewares and handlers\<close>

text \<open>
  Of the response the router uses \<^verbatim>\<open>statusCode\<close>, \<^verbatim>\<open>setHeader\<close>, \<^verbatim>\<open>end\<close> and
  \<^verbatim>\<open>writableEnded\<close>; the record below has the state of a \<^verbatim>\<open>ServerResponse\<close> of Node behind
  them. A response starts with nothing sent; its status line and headers are sent with the
  first \<^verbatim>\<open>write\<close> or with \<^verbatim>\<open>end\<close>, whichever comes first, and \<^verbatim>\<open>end\<close> finishes it.
  \<^verbatim>\<open>headersSent\<close> and \<^verbatim>\<open>writableEnded\<close> read that state. The field \<open>chunks\<close> has the data
  handed to \<^verbatim>\<open>write\<close> and \<^verbatim>\<open>end\<close>, in order; how the transport frames it, and that it sends
  none of it in answer to a \<^verbatim>\<open>HEAD\<close> request, is outside the router.
\<close>

datatype phase = Unsent | Started | Finished

record response =
  statusCode :: nat
  headers :: "string \<rightharpoonup> string"
  phase :: phase
  chunks :: "string list"

definition headersSent :: "response \<Rightarrow> bool" where
  "headersSent r = (phase r \<noteq> Unsent)"

definition writableEnded :: "response \<Rightarrow> bool" where
  "writableEnded r = (phase r = Finished)"

text \<open>
  \<^verbatim>\<open>statusCode\<close> is a plain property: assigning it never throws. \<^verbatim>\<open>setHeader\<close> throws the
  error \<^verbatim>\<open>ERR_HTTP_HEADERS_SENT\<close> once the headers are sent, and otherwise keeps the value
  under the name in lower case. \<^verbatim>\<open>write\<close> and \<^verbatim>\<open>end\<close> on a finished response change nothing:
  the error is reported through an event and is not thrown. \<^verbatim>\<open>end(data)\<close> writes the data
  when it is not empty.
\<close>

definition ERR_HTTP_HEADERS_SENT :: thrown where
  "ERR_HTTP_HEADERS_SENT = ErrorObject ''Cannot set headers after they are sent to the client''"

definition setHeader :: "string \<Rightarrow> string \<Rightarrow> response \<Rightarrow> thrown + response" where
  "setHeader k v r =
     (if headersSent r then Inl ERR_HTTP_HEADERS_SENT
      else Inr (r\<lparr>headers := (headers r)(toLowerCase k \<mapsto> v)\<rparr>))"

definition res_write :: "string \<Rightarrow> response \<Rightarrow> response" where
  "res_write chunk r =
     (if writableEnded r then r
      else r\<lparr>phase := Started, chunks := chunks r @ [chunk]\<rparr>)"

definition res_end :: "string option \<Rightarrow> response \<Rightarrow> response" where
  "res_end data r =
     (if writableEnded r then r
      else r\<lparr>phase := Finished,
             chunks := (case data of
                          None \<Rightarrow> chunks r
                        | Some d \<Rightarrow> if d \<noteq> [] then chunks r @ [d] else chunks r)\<rparr>)"

text \<open>
  The request context handed to middlewares and handlers (the raw request and response
  are not fields here: the response is the state the effects below act on).
\<close>

record RequestContext =
  ctx_params :: "string \<rightharpoonup> string"
  ctx_query :: "string \<rightharpoonup> string"
  ctx_path :: string
  ctx_method :: string
  ctx_body :: jsvalue

text \<open>
  Middlewares and handlers are functions of the caller. The model gives them as scripts
  computed from the context: a handler is a list of effects on the response and the value
  it returns; a middleware is a list of steps, each an effect or \<^verbatim>\<open>await next()\<close>. The
  effects are the assignment of \<^verbatim>\<open>statusCode\<close> and the calls of \<^verbatim>\<open>setHeader\<close>, \<^verbatim>\<open>write\<close> and
  \<^verbatim>\<open>end\<close>, with valid header names, values and chunks, and \<open>Throw\<close>: a synchronous throw or
  the rejection of the promise returned, which under \<^verbatim>\<open>await\<close> are the same; a call that
  throws for an invalid argument is a \<open>Throw\<close> of that error. A script runs to its end or
  to its first throw; it does not catch, and it does not call \<^verbatim>\<open>next\<close> without awaiting it.
\<close>

datatype effect =
    SetStatus nat
  | SetHeader string string
  | Write string
  | EndResponse "string option"
  | Throw thrown

datatype step = Do effect | AwaitNext

type_synonym middleware = "RequestContext \<Rightarrow> step list"

type_synonym handler = "RequestContext \<Rightarrow> effect list \<times> jsvalue"

fun apply_effect :: "effect \<Rightarrow> response \<Rightarrow> thrown + response" where
  "apply_effect (SetStatus n) r = Inr (r\<lparr>statusCode := n\<rparr>)"
| "apply_effect (SetHeader k v) r = setHeader k v r"
| "apply_effect (Write chunk) r = Inr (res_write chunk r)"
| "apply_effect (EndResponse data) r = Inr (res_end data r)"
| "apply_effect (Throw e) r = Inl e"

fun run_effects :: "effect list \<Rightarrow> response \<Rightarrow> thrown option \<times> response" where
  "run_effects [] r = (None, r)"
| "run_effects (e # es) r =
     (case apply_effect e r of
        Inl error \<Rightarrow> (Some error, r)
      | Inr r' \<Rightarrow> run_effects es r')"

subsection \<open>The middleware chain of \<^verbatim>\<open>handleRequest\<close>\<close>

text \<open>
  The state of one request while the chain runs: the response, the cursor \<^verbatim>\<open>index\<close> that
  the closure \<^verbatim>\<open>next\<close> shares, and a log of the calls made, kept to state which functions
  were invoked.
\<close>

datatype call = MiddlewareCalled nat | HandlerCalled

record exec_state =
  st_res :: response
  st_index :: nat
  st_calls :: "call list"

text \<open>
  \<open>run_frames\<close> runs the middleware bodies that are suspended in each other: the head of
  the list is the body that is running, the next one is the body awaiting it at \<^verbatim>\<open>next()\<close>.
  At \<open>AwaitNext\<close> the closure \<^verbatim>\<open>next\<close> runs: within bounds it reads the middleware at the
  cursor, increments the cursor and runs the body; out of bounds it returns at once. A
  throw leaves every body, as a rejection propagates through every \<^verbatim>\<open>await\<close>.
\<close>

function run_frames ::
  "RequestContext \<Rightarrow> middleware list \<Rightarrow> step list list \<Rightarrow> exec_state
     \<Rightarrow> thrown option \<times> exec_state" where
  "run_frames ctx allMiddlewares [] s = (None, s)"
| "run_frames ctx allMiddlewares ([] # frames) s = run_frames ctx allMiddlewares frames s"
| "run_frames ctx allMiddlewares ((AwaitNext # rest) # frames) s =
     (if st_index s < length allMiddlewares
      then run_frames ctx allMiddlewares
             ((allMiddlewares ! st_index s) ctx # rest # frames)
             (s\<lparr>st_index := st_index s + 1,
                st_calls := st_calls s @ [MiddlewareCalled (st_index s)]\<rparr>)
      else run_frames ctx allMiddlewares (rest # frames) s)"
| "run_frames ctx allMiddlewares ((Do e # rest) # frames) s =
     (case apply_effect e (st_res s) of
        Inl error \<Rightarrow> (Some error, s)
      | Inr r \<Rightarrow> run_frames ctx allMiddlewares (rest # frames) (s\<lparr>st_res := r\<rparr>))"
  by pat_completeness auto
termination
  by (relation "inv_image (less_than <*lex*> less_than)
                  (\<lambda>(ctx, mws, frames, s).
                     (length mws - st_index s, length frames + length (concat frames)))")
     auto

text \<open>The call \<^verbatim>\<open>await next()\<close> that \<^verbatim>\<open>handleRequest\<close> makes itself.\<close>

definition run_next ::
  "RequestContext \<Rightarrow> middleware list \<Rightarrow> exec_state \<Rightarrow> thrown option \<times> exec_state" where
  "run_next ctx allMiddlewares s = run_frames ctx allMiddlewares [[AwaitNext]] s"

subsection \<open>\<^verbatim>\<open>handleRequest\<close>\<close>

text \<open>
  The request as the router reads it: the method, the request target \<^verbatim>\<open>req.url\<close>, the
  header \<^verbatim>\<open>req.headers.host\<close> and the events of the body stream. The constructor \<^verbatim>\<open>URL\<close> of
  the platform is a parameter \<open>new_URL\<close>, from the input and the base to the \<^verbatim>\<open>pathname\<close> and
  the \<^verbatim>\<open>search\<close> of the parsed URL, or to the \<^verbatim>\<open>TypeError\<close> it throws when the input or the
  base does not parse. \<^verbatim>\<open>JSON.stringify\<close> is a parameter.
\<close>

record URL =
  url_pathname :: string
  url_search :: string

record request =
  req_method :: "string option"
  req_url :: "string option"
  req_host :: "string option"
  req_stream :: "stream_event list"

text \<open>\<^verbatim>\<open>req.url || "/"\<close> and \<^verbatim>\<open>`http://${req.headers.host || "localhost"}`\<close>.\<close>

definition request_url :: "request \<Rightarrow> string" where
  "request_url req =
     (case req_url req of
        None \<Rightarrow> ''/''
      | Some u \<Rightarrow> if u \<noteq> [] then u else ''/'')"

definition request_base :: "request \<Rightarrow> string" where
  "request_base req =
     ''http://'' @ (case req_host req of
                      None \<Rightarrow> ''localhost''
                    | Some h \<Rightarrow> if h \<noteq> [] then h else ''localhost'')"

definition not_found_body :: "string \<Rightarrow> string \<Rightarrow> jsvalue" where
  "not_found_body path method =
     JObject [(''error'', JString ''Not Found''), (''path'', JString path),
              (''method'', JString method)]"

definition server_error_body :: "thrown \<Rightarrow> jsvalue" where
  "server_error_body error =
     JObject [(''error'', JString ''Internal Server Error''),
              (''message'', JString (case error of
                                        ErrorObject message \<Rightarrow> message
                                      | NonError \<Rightarrow> ''Unknown error''))]"

text \<open>
  The handler of the matched node, \<^verbatim>\<open>matched.node.handler\<close>; only a method node has one,
  and \<^verbatim>\<open>findRoute\<close> returns method nodes only.
\<close>

fun node_handler :: "('h, 'm) ServerNode \<Rightarrow> 'h option" where
  "node_handler (MethodNode m h p) = Some h"
| "node_handler (ServerRoot port children mws) = None"
| "node_handler (RouteNode rpath children mws) = None"
| "node_handler (MiddlewareNode mw) = None"

text \<open>
  The body of the \<^verbatim>\<open>try\<close> block: \<^verbatim>\<open>await next()\<close>, then the call of the handler, then its
  result. Calling a handler that is absent throws a \<^verbatim>\<open>TypeError\<close>. The block ends with the
  error that escapes it, if one does: an error of the chain, of the handler, or of the
  call of \<^verbatim>\<open>setHeader\<close> the block makes itself.
\<close>

definition handleRequest_try ::
  "(jsvalue \<Rightarrow> string) \<Rightarrow> RequestContext \<Rightarrow> middleware list \<Rightarrow> handler option \<Rightarrow> exec_state
     \<Rightarrow> thrown option \<times> exec_state" where
  "handleRequest_try JSON_stringify ctx allMiddlewares handler_opt s =
     (case run_next ctx allMiddlewares s of
        (Some error, s1) \<Rightarrow> (Some error, s1)
      | (None, s1) \<Rightarrow>
          (case handler_opt of
             None \<Rightarrow> (Some (ErrorObject ''matched.node.handler is not a function''), s1)
           | Some h \<Rightarrow>
               (let s2 = s1\<lparr>st_calls := st_calls s1 @ [HandlerCalled]\<rparr>;
                    (effects, result) = h ctx
                in (case run_effects effects (st_res s2) of
                      (Some error, r) \<Rightarrow> (Some error, s2\<lparr>st_res := r\<rparr>)
                    | (None, r) \<Rightarrow>
                        if \<not> writableEnded r then
                          (if result \<noteq> Undefined then
                             (case setHeader ''Content-Type'' ''application/json'' r of
                                Inl error \<Rightarrow> (Some error, s2\<lparr>st_res := r\<rparr>)
                              | Inr r' \<Rightarrow>
                                  (None,
                                   s2\<lparr>st_res := res_end (Some (JSON_stringify result)) r'\<rparr>))
                           else (None, s2\<lparr>st_res := res_end None r\<rparr>))
                        else (None, s2\<lparr>st_res := r\<rparr>)))))"

text \<open>
  The \<^verbatim>\<open>catch\<close> block, from the error caught and the response to the response it leaves,
  or to the error it throws itself: the block calls \<^verbatim>\<open>setHeader\<close>.
\<close>

definition handleRequest_catch ::
  "(jsvalue \<Rightarrow> string) \<Rightarrow> thrown \<Rightarrow> response \<Rightarrow> thrown + response" where
  "handleRequest_catch JSON_stringify error r =
     (if \<not> writableEnded r then
        (case setHeader ''Content-Type'' ''application/json'' (r\<lparr>statusCode := 500\<rparr>) of
           Inl raised \<Rightarrow> Inl raised
         | Inr r' \<Rightarrow> Inr (res_end (Some (JSON_stringify (server_error_body error))) r'))
      else Inr r)"

definition request_method :: "request \<Rightarrow> string" where
  "request_method req =
     toUpperCase (case req_method req of
                    None \<Rightarrow> ''GET''
                  | Some m \<Rightarrow> if m \<noteq> [] then m else ''GET'')"

text \<open>
  \<^verbatim>\<open>handleRequest\<close> is an \<^verbatim>\<open>async\<close> function: what it throws outside its \<^verbatim>\<open>try\<close> block, from
  the constructor \<^verbatim>\<open>URL\<close>, from \<^verbatim>\<open>parseQueryString\<close>, from the \<^verbatim>\<open>setHeader\<close> of the 404
  response or from the \<^verbatim>\<open>catch\<close> block, rejects the promise it returns.
\<close>

definition handleRequest ::
  "(string \<Rightarrow> string \<Rightarrow> thrown + URL) \<Rightarrow> (string \<Rightarrow> jsvalue option) \<Rightarrow> (jsvalue \<Rightarrow> string)
     \<Rightarrow> (handler, middleware) ServerNode \<Rightarrow> request \<Rightarrow> response \<Rightarrow> exec_state promise" where
  "handleRequest new_URL JSON_parse JSON_stringify serverNode req res =
     (case new_URL (request_url req) (request_base req) of
        Inl error \<Rightarrow> Rejected error
      | Inr url \<Rightarrow>
          (let path = url_pathname url;
               method = request_method req
           in (case parseQueryString (drop 1 (url_search url)) of
                 Inl error \<Rightarrow> Rejected error
               | Inr query \<Rightarrow>
                   (let serverMiddlewares = node_middlewares serverNode
                    in (case findRoute (node_children serverNode) method path []
                               serverMiddlewares of
                          None \<Rightarrow>
                            (case setHeader ''Content-Type'' ''application/json''
                                    (res\<lparr>statusCode := 404\<rparr>) of
                               Inl error \<Rightarrow> Rejected error
                             | Inr r \<Rightarrow>
                                 Resolved
                                   \<lparr>st_res =
                                      res_end
                                        (Some (JSON_stringify (not_found_body path method))) r,
                                    st_index = 0, st_calls = []\<rparr>)
                        | Some matched \<Rightarrow>
                            (case parseBody JSON_parse (req_stream req) of
                               Pending \<Rightarrow> Pending
                             | Rejected error \<Rightarrow> Rejected error
                             | Resolved body \<Rightarrow>
                                 (let ctx = \<lparr>ctx_params = matched_params matched,
                                             ctx_query = query, ctx_path = path,
                                             ctx_method = method, ctx_body = body\<rparr>;
                                      s0 = \<lparr>st_res = res, st_index = 0, st_calls = []\<rparr>
                                  in (case handleRequest_try JSON_stringify ctx
                                             (matched_middlewares matched)
                                             (node_handler (matched_node matched)) s0 of
                                        (None, s) \<Rightarrow> Resolved s
                                      | (Some error, s) \<Rightarrow>
                                          (case handleRequest_catch JSON_stringify error
                                                  (st_res s) of
                                             Inl raised \<Rightarrow> Rejected raised
                                           | Inr r \<Rightarrow> Resolved (s\<lparr>st_res := r\<rparr>))))))))))"

section \<open>Definitions used to state the properties\<close>





text \<open>
  An endpoint nested in groups: \<open>leads_to nodes groups e\<close> says that the route nodes
  \<open>groups\<close>, outermost first, lead from the sibling list \<open>nodes\<close> down to the method node
  \<open>e\<close>, each a child of the one before it.
\<close>

fun leads_to ::
  "('h, 'm) ServerNode list \<Rightarrow> ('h, 'm) ServerNode list \<Rightarrow> ('h, 'm) ServerNode \<Rightarrow> bool" where
  "leads_to nodes [] e = (e \<in> set nodes \<and> is_method e)"
| "leads_to nodes (g # groups) e =
     (g \<in> set nodes \<and> is_route g \<and> leads_to (node_children g) groups e)"

text \<open>
  The prefix \<^verbatim>\<open>findRoute\<close> carries below the groups: \<^verbatim>\<open>joinPaths(basePath, routeNode.path)\<close>
  at each of them in turn.
\<close>

definition fullPath_along :: "string \<Rightarrow> ('h, 'm) ServerNode list \<Rightarrow> string" where
  "fullPath_along basePath groups =
     foldl (\<lambda>base g. joinPaths [base, route_path g]) basePath groups"

text \<open>
  The pattern of the specification: the prefixes of the groups, from the root to the
  leaf, followed by the suffix of the endpoint when it has one, joined by \<open>joinPaths\<close>.
\<close>

definition spec_pattern :: "('h, 'm) ServerNode list \<Rightarrow> ('h, 'm) ServerNode \<Rightarrow> string" where
  "spec_pattern groups e =
     joinPaths (map route_path groups
                @ (case endpoint_path e of None \<Rightarrow> [] | Some suffix \<Rightarrow> [suffix]))"

text \<open>
  The test the specification makes on a direct child of a group: it is an endpoint bound
  to the method, and the prefix of the group followed by its suffix matches the path.
\<close>

definition spec_direct_match ::
  "string \<Rightarrow> string \<Rightarrow> string \<Rightarrow> ('h, 'm) ServerNode \<Rightarrow> bool" where
  "spec_direct_match method path fullPath c =
     (is_method c \<and> endpoint_method c = method
      \<and> fst (matchPath (checkPath_of fullPath (endpoint_path c)) path))"

text \<open>A text that is not empty and neither begins nor ends with a slash.\<close>

definition trimmed :: "string \<Rightarrow> bool" where
  "trimmed s = (s \<noteq> [] \<and> hd s \<noteq> CHR ''/'' \<and> last s \<noteq> CHR ''/'')"

text \<open>
  The run of one middleware body with no body awaiting it: what the call of the
  middleware returns to the \<^verbatim>\<open>await\<close> in \<^verbatim>\<open>next\<close>.
\<close>

definition run_body ::
  "RequestContext \<Rightarrow> middleware list \<Rightarrow> step list \<Rightarrow> exec_state \<Rightarrow> thrown option \<times> exec_state" where
  "run_body ctx allMiddlewares steps s = run_frames ctx allMiddlewares [steps] s"

text \<open>
  The URL parser of the examples. On the request targets the examples use, an absolute
  path of letters with or without a query, the constructor \<^verbatim>\<open>URL\<close> returns the text before
  the first \<^verbatim>\<open>?\<close> as the \<^verbatim>\<open>pathname\<close> and the rest as the \<^verbatim>\<open>search\<close>; on the request target
  \<^verbatim>\<open>//\<close> it throws \<^verbatim>\<open>TypeError: Invalid URL\<close>.
\<close>

abbreviation sample_URL :: "string \<Rightarrow> string \<Rightarrow> thrown + URL" where
  "sample_URL \<equiv>
     (\<lambda>input base.
        if input = ''//'' then Inl (ErrorObject ''Invalid URL'')
        else Inr \<lparr>url_pathname = takeWhile (\<lambda>c. c \<noteq> CHR ''?'') input,
                  url_search = dropWhile (\<lambda>c. c \<noteq> CHR ''?'') input\<rparr>)"

section \<open>Properties of body decoding\<close>

lemma parseBody_events_data:
  "parseBody_events JSON_parse (map Data cs @ events) acc =
     parseBody_events JSON_parse events (acc @ cs)"
  by (induction cs arbitrary: acc) simp_all

lemma parseBody_events_not_rejected: "parseBody_events JSON_parse events acc \<noteq> Rejected e"
  by (induction JSON_parse events acc rule: parseBody_events.induct)
     (simp_all add: Let_def split: option.splits)

lemma parseBody_events_settles:
  "End \<in> set events \<or> StreamError \<in> set events
     \<Longrightarrow> \<exists>v. parseBody_events JSON_parse events acc = Resolved v"
  by (induction JSON_parse events acc rule: parseBody_events.induct)
     (auto simp add: Let_def split: option.splits)

text \<open>
  Claim C8. Body decoding never throws: the promise of \<open>parseBody\<close> is never rejected, and
  it resolves as soon as the stream ends or fails. A stream that delivers the chunks \<open>cs\<close>
  and then ends decodes to \<open>Undefined\<close> when the buffered text is empty, and otherwise to
  what \<^verbatim>\<open>JSON.parse\<close> returns, or to the raw text when \<^verbatim>\<open>JSON.parse\<close> fails; a stream error
  gives \<open>Undefined\<close>. So the body \<^verbatim>\<open>hello world\<close>, which is not JSON, decodes to that string.
\<close>

theorem parseBody_decoding:
  "parseBody JSON_parse events \<noteq> Rejected e
   \<and> (End \<in> set events \<or> StreamError \<in> set events
        \<longrightarrow> (\<exists>v. parseBody JSON_parse events = Resolved v))
   \<and> parseBody JSON_parse (map Data cs @ End # rest) =
       Resolved (if concat cs = [] then Undefined
                 else (case JSON_parse (concat cs) of
                         Some v \<Rightarrow> v
                       | None \<Rightarrow> JString (concat cs)))
   \<and> parseBody JSON_parse (map Data cs @ StreamError # rest) = Resolved Undefined
   \<and> (JSON_parse ''hello world'' = None \<longrightarrow>
        parseBody JSON_parse [Data ''hello world'', End] = Resolved (JString ''hello world''))"
proof -
  have never_rejected: "parseBody JSON_parse events \<noteq> Rejected e"
    by (simp add: parseBody_def parseBody_events_not_rejected)
  have settles: "End \<in> set events \<or> StreamError \<in> set events
      \<longrightarrow> (\<exists>v. parseBody JSON_parse events = Resolved v)"
    using parseBody_events_settles [of events JSON_parse "[]"] by (simp add: parseBody_def)
  have at_end: "parseBody JSON_parse (map Data cs @ End # rest) =
       Resolved (if concat cs = [] then Undefined
                 else (case JSON_parse (concat cs) of
                         Some v \<Rightarrow> v
                       | None \<Rightarrow> JString (concat cs)))"
    by (simp add: parseBody_def parseBody_events_data Let_def split: option.splits)
  have at_error: "parseBody JSON_parse (map Data cs @ StreamError # rest) = Resolved Undefined"
    by (simp add: parseBody_def parseBody_events_data)
  have raw: "JSON_parse ''hello world'' = None \<longrightarrow>
        parseBody JSON_parse [Data ''hello world'', End] = Resolved (JString ''hello world'')"
    by (simp add: parseBody_def)
  from never_rejected settles at_end at_error raw show ?thesis by blast
qed

theorem parseBody_decoding_witness:
  "parseBody (\<lambda>s. if s = ''null'' then Some JNull else None)
       [Data ''hello '', Data ''world'', End] \<noteq> Rejected NonError
   \<and> (\<exists>v. parseBody (\<lambda>s. if s = ''null'' then Some JNull else None)
             [Data ''hello '', Data ''world'', End] = Resolved v)
   \<and> parseBody (\<lambda>s. if s = ''null'' then Some JNull else None)
       [Data ''hello world'', End] = Resolved (JString ''hello world'')"
  using parseBody_decoding [of "\<lambda>s. if s = ''null'' then Some JNull else None"
      "[Data ''hello '', Data ''world'', End]" NonError "[]" "[]"]
  by simp

section \<open>Properties of path matching\<close>

lemma split_on_not_Nil: "split_on sep s \<noteq> []"
  by (induction s) (auto split: list.splits)











section \<open>Properties of query-string parsing\<close>












section \<open>Properties of path joining\<close>

lemma hd_rev_dropWhile_rev:
  assumes "dropWhile P (rev xs) \<noteq> []"
  shows "hd (rev (dropWhile P (rev xs))) = hd xs"
proof -
  have "rev xs = takeWhile P (rev xs) @ dropWhile P (rev xs)"
    by simp
  then have "rev (rev xs) = rev (takeWhile P (rev xs) @ dropWhile P (rev xs))"
    by (rule arg_cong)
  then have "xs = rev (dropWhile P (rev xs)) @ rev (takeWhile P (rev xs))"
    by (simp only: rev_rev_ident rev_append)
  then have "hd xs = hd (rev (dropWhile P (rev xs)) @ rev (takeWhile P (rev xs)))"
    by (rule arg_cong)
  with assms show ?thesis by simp
qed

lemma strip_slashes_trimmed: "strip_slashes s = [] \<or> trimmed (strip_slashes s)"
proof (cases "strip_slashes s = []")
  case True
  then show ?thesis by simp
next
  case False
  define P where "P = (\<lambda>c. c = CHR ''/'')"
  define a where "a = dropWhile P s"
  define b where "b = dropWhile P (rev a)"
  have strip: "strip_slashes s = rev b"
    by (simp add: strip_slashes_def a_def b_def P_def)
  with False have b: "b \<noteq> []" by simp
  then have hb: "\<not> P (hd b)"
    unfolding b_def by (rule hd_dropWhile)
  from b have a: "a \<noteq> []" unfolding b_def by (cases a) simp_all
  then have ha: "\<not> P (hd a)"
    unfolding a_def by (rule hd_dropWhile)
  have "last (rev b) = hd b" using b by (simp add: last_rev)
  moreover have "hd (rev b) = hd a"
    using b unfolding b_def by (rule hd_rev_dropWhile_rev)
  ultimately show ?thesis using hb ha b strip by (simp add: trimmed_def P_def)
qed

lemma strip_slashes_id: "trimmed s \<Longrightarrow> strip_slashes s = s"
proof -
  assume t: "trimmed s"
  then obtain c cs where s: "s = c # cs" and c: "c \<noteq> CHR ''/''"
    by (cases s) (auto simp: trimmed_def)
  from t have "hd (rev s) \<noteq> CHR ''/''" "rev s \<noteq> []"
    by (auto simp: trimmed_def hd_rev)
  then have "dropWhile (\<lambda>c. c = CHR ''/'') (rev s) = rev s"
    by (cases "rev s") auto
  then show ?thesis using s c by (simp add: strip_slashes_def)
qed

lemma strip_slashes_slash: "strip_slashes (CHR ''/'' # s) = strip_slashes s"
  by (simp add: strip_slashes_def)

lemma join_with_trimmed:
  "xs \<noteq> [] \<Longrightarrow> \<forall>x \<in> set xs. trimmed x \<Longrightarrow> trimmed (join_with ''/'' xs)"
proof (induction "''/''" xs rule: join_with.induct)
  case 1
  then show ?case by simp
next
  case (2 x)
  then show ?case by simp
next
  case (3 x y ys)
  then have "trimmed (join_with ''/'' (y # ys))" and "trimmed x" by simp_all
  then show ?case by (auto simp: trimmed_def)
qed

lemma join_with_nested:
  "xs \<noteq> [] \<Longrightarrow> join_with sep (join_with sep xs # ys) = join_with sep (xs @ ys)"
proof (induction sep xs rule: join_with.induct)
  case (1 sep)
  then show ?case by simp
next
  case (2 sep x)
  then show ?case by simp
next
  case (3 sep x y zs)
  then show ?case by (cases ys) simp_all
qed

lemma joinPaths_nested: "joinPaths (joinPaths xs # ys) = joinPaths (xs @ ys)"
proof -
  let ?J = "filter (\<lambda>p. p \<noteq> []) (map strip_slashes xs)"
  let ?K = "filter (\<lambda>p. p \<noteq> []) (map strip_slashes ys)"
  have tr: "\<forall>x \<in> set ?J. trimmed x"
    using strip_slashes_trimmed by auto
  show ?thesis
  proof (cases "?J = []")
    case True
    then show ?thesis
      by (simp add: joinPaths_def strip_slashes_slash) (simp add: strip_slashes_def)
  next
    case False
    from False tr have t: "trimmed (join_with ''/'' ?J)" by (simp add: join_with_trimmed)
    then have "strip_slashes (joinPaths xs) = join_with ''/'' ?J"
      by (simp add: joinPaths_def strip_slashes_slash strip_slashes_id)
    moreover from t have "join_with ''/'' ?J \<noteq> []" by (simp add: trimmed_def)
    ultimately have "joinPaths (joinPaths xs # ys) = ''/'' @ join_with ''/'' (join_with ''/'' ?J # ?K)"
      by (simp add: joinPaths_def)
    also have "\<dots> = ''/'' @ join_with ''/'' (?J @ ?K)"
      using False by (simp add: join_with_nested)
    also have "\<dots> = joinPaths (xs @ ys)" by (simp add: joinPaths_def)
    finally show ?thesis .
  qed
qed

lemma joinPaths_empty_first: "joinPaths ([] # xs) = joinPaths xs"
  by (simp add: joinPaths_def strip_slashes_def)

lemma joinPaths_empty_last: "joinPaths (xs @ [[]]) = joinPaths xs"
  by (simp add: joinPaths_def strip_slashes_def)

lemma fullPath_along_Cons:
  "fullPath_along base (g # groups) = fullPath_along (joinPaths [base, route_path g]) groups"
  by (simp add: fullPath_along_def)

lemma fullPath_along_root:
  "groups \<noteq> [] \<Longrightarrow> fullPath_along [] groups = joinPaths (map route_path groups)"
proof (induction groups rule: rev_induct)
  case Nil
  then show ?case by simp
next
  case (snoc g groups)
  show ?case
  proof (cases "groups = []")
    case True
    then show ?thesis by (simp add: fullPath_along_def joinPaths_empty_first)
  next
    case False
    with snoc have "fullPath_along [] groups = joinPaths (map route_path groups)" by simp
    then have "fullPath_along [] (groups @ [g]) = joinPaths [joinPaths (map route_path groups), route_path g]"
      by (simp add: fullPath_along_def)
    then show ?thesis by (simp add: joinPaths_nested)
  qed
qed

lemma matchPath_root: "matchPath [] path = matchPath ''/'' path"
  by (simp add: matchPath_def path_parts_def)

lemma checkPath_spec_pattern:
  "matchPath (checkPath_of (fullPath_along [] groups) (endpoint_path e)) path =
     matchPath (spec_pattern groups e) path"
proof (cases "groups = []")
  case True
  show ?thesis
  proof (cases "endpoint_path e")
    case None
    with True show ?thesis
      by (simp add: checkPath_of_def spec_pattern_def fullPath_along_def matchPath_root)
         (simp add: joinPaths_def)
  next
    case (Some suffix)
    show ?thesis
    proof (cases "suffix = []")
      case True
      with Some \<open>groups = []\<close> show ?thesis
        by (simp add: checkPath_of_def spec_pattern_def fullPath_along_def matchPath_root)
           (simp add: joinPaths_def strip_slashes_def)
    next
      case False
      with Some \<open>groups = []\<close> show ?thesis
        by (simp add: checkPath_of_def spec_pattern_def fullPath_along_def joinPaths_empty_first)
    qed
  qed
next
  case False
  then have full: "fullPath_along [] groups = joinPaths (map route_path groups)"
    by (rule fullPath_along_root)
  show ?thesis
  proof (cases "endpoint_path e")
    case None
    then show ?thesis by (simp add: checkPath_of_def spec_pattern_def full)
  next
    case (Some suffix)
    show ?thesis
    proof (cases "suffix = []")
      case True
      with Some show ?thesis
        using joinPaths_empty_last [of "map route_path groups"]
        by (simp add: checkPath_of_def spec_pattern_def full)
    next
      case False
      with Some show ?thesis
        by (simp add: checkPath_of_def spec_pattern_def full joinPaths_nested)
    qed
  qed
qed

section \<open>Properties of route resolution\<close>

lemma method_matches_Some:
  "method_matches meth path base m p = Some params
     \<longleftrightarrow> m = meth \<and> matchPath (checkPath_of base p) path = (True, params)"
  by (auto simp: method_matches_def Let_def split: prod.splits if_splits)

lemma method_matches_None:
  "method_matches meth path base m p = None
     \<longleftrightarrow> \<not> (m = meth \<and> fst (matchPath (checkPath_of base p) path))"
  by (auto simp: method_matches_def Let_def split: prod.splits if_splits)

lemma findRoute_methods_find:
  "findRoute_methods children meth path fullPath acc =
     (case find (spec_direct_match meth path fullPath) children of
        None \<Rightarrow> None
      | Some e \<Rightarrow>
          Some \<lparr>matched_node = e,
                matched_params = snd (matchPath (checkPath_of fullPath (endpoint_path e)) path),
                matched_middlewares = acc\<rparr>)"
proof (induction children meth path fullPath acc rule: findRoute_methods.induct)
  case (2 m h p children meth path fullPath acc)
  show ?case
  proof (cases "method_matches meth path fullPath m p")
    case None
    then have "\<not> spec_direct_match meth path fullPath (MethodNode m h p)"
      by (simp add: method_matches_None spec_direct_match_def)
    with None 2 show ?thesis by auto
  next
    case (Some params)
    then have "spec_direct_match meth path fullPath (MethodNode m h p)"
      and "snd (matchPath (checkPath_of fullPath p) path) = params"
      by (simp_all add: method_matches_Some spec_direct_match_def)
    with Some show ?thesis by auto
  qed
qed (simp_all add: spec_direct_match_def)

lemma findRoute_append:
  "findRoute (xs @ ys) meth path basePath mws =
     (case findRoute xs meth path basePath mws of
        Some r \<Rightarrow> Some r
      | None \<Rightarrow> findRoute ys meth path basePath mws)"
  by (induction xs meth path basePath mws rule: findRoute.induct)
     (auto simp: Let_def split: option.splits)

lemma findRoute_only_routes:
  "findRoute_methods children meth path fullPath acc = None \<Longrightarrow>
     findRoute children meth path fullPath acc =
       findRoute (filter is_route children) meth path fullPath acc"
proof (induction children)
  case Nil
  then show ?case by simp
next
  case (Cons c children)
  then show ?case
    by (cases c) (auto simp: Let_def split: option.splits)
qed

lemma leads_to_mono:
  "leads_to nodes groups e \<Longrightarrow> set nodes \<subseteq> set nodes' \<Longrightarrow> leads_to nodes' groups e"
  by (cases groups) auto

lemma leads_to_skip: "leads_to nodes groups e \<Longrightarrow> leads_to (n # nodes) groups e"
  by (rule leads_to_mono) auto

lemma findRoute_methods_sound:
  "findRoute_methods children meth path fullPath acc = Some r \<Longrightarrow>
     matched_node r \<in> set children \<and> is_method (matched_node r)
     \<and> endpoint_method (matched_node r) = meth
     \<and> matchPath (checkPath_of fullPath (endpoint_path (matched_node r))) path
         = (True, matched_params r)
     \<and> matched_middlewares r = acc"
proof (induction children meth path fullPath acc rule: findRoute_methods.induct)
  case (2 m h p children meth path fullPath acc)
  then show ?case
    by (cases "method_matches meth path fullPath m p")
       (auto simp: method_matches_Some)
qed auto

lemma findRoute_sound:
  "findRoute nodes meth path basePath mws = Some r \<Longrightarrow>
     \<exists>groups. leads_to nodes groups (matched_node r)
       \<and> endpoint_method (matched_node r) = meth
       \<and> matchPath (checkPath_of (fullPath_along basePath groups)
                       (endpoint_path (matched_node r))) path = (True, matched_params r)
       \<and> matched_middlewares r = mws @ concat (map node_middlewares groups)"
proof (induction nodes meth path basePath mws rule: findRoute.induct)
  case (1 meth path basePath middlewares)
  then show ?case by simp
next
  case (2 rpath children rmws nodes meth path basePath middlewares)
  let ?g = "RouteNode rpath children rmws"
  let ?full = "joinPaths [basePath, rpath]"
  let ?acc = "middlewares @ rmws"
  show ?case
  proof (cases "findRoute_methods children meth path ?full ?acc")
    case (Some found)
    with 2(3) have r: "found = r" by (simp add: Let_def)
    from Some r have "matched_node r \<in> set children \<and> is_method (matched_node r)
       \<and> endpoint_method (matched_node r) = meth
       \<and> matchPath (checkPath_of ?full (endpoint_path (matched_node r))) path
           = (True, matched_params r)
       \<and> matched_middlewares r = ?acc"
      using findRoute_methods_sound [of children meth path ?full ?acc r] by simp
    then have "leads_to (?g # nodes) [?g] (matched_node r)
       \<and> endpoint_method (matched_node r) = meth
       \<and> matchPath (checkPath_of (fullPath_along basePath [?g])
                       (endpoint_path (matched_node r))) path = (True, matched_params r)
       \<and> matched_middlewares r = middlewares @ concat (map node_middlewares [?g])"
      by (simp add: fullPath_along_def)
    then show ?thesis by blast
  next
    case None
    note direct = None
    show ?thesis
    proof (cases "findRoute children meth path ?full ?acc")
      case (Some nested)
      with direct 2(3) have r: "nested = r" by (simp add: Let_def)
      from 2(1) [OF refl refl direct] Some r
      obtain groups where g: "leads_to children groups (matched_node r)"
        "endpoint_method (matched_node r) = meth"
        "matchPath (checkPath_of (fullPath_along ?full groups)
            (endpoint_path (matched_node r))) path = (True, matched_params r)"
        "matched_middlewares r = ?acc @ concat (map node_middlewares groups)"
        by blast
      then have "leads_to (?g # nodes) (?g # groups) (matched_node r)
         \<and> endpoint_method (matched_node r) = meth
         \<and> matchPath (checkPath_of (fullPath_along basePath (?g # groups))
                         (endpoint_path (matched_node r))) path = (True, matched_params r)
         \<and> matched_middlewares r = middlewares @ concat (map node_middlewares (?g # groups))"
        by (simp add: fullPath_along_Cons)
      then show ?thesis by blast
    next
      case None
      with direct 2(3) have "findRoute nodes meth path basePath middlewares = Some r"
        by (simp add: Let_def)
      from 2(2) [OF refl refl direct None this]
      obtain groups where g: "leads_to nodes groups (matched_node r)"
        "endpoint_method (matched_node r) = meth"
        "matchPath (checkPath_of (fullPath_along basePath groups)
            (endpoint_path (matched_node r))) path = (True, matched_params r)"
        "matched_middlewares r = middlewares @ concat (map node_middlewares groups)"
        by blast
      from g(1) have "leads_to (?g # nodes) groups (matched_node r)"
        by (rule leads_to_mono) auto
      with g show ?thesis by blast
    qed
  qed
next
  case (3 m h p nodes meth path basePath middlewares)
  show ?case
  proof (cases "method_matches meth path basePath m p")
    case (Some params)
    with 3(2) have r: "r = \<lparr>matched_node = MethodNode m h p, matched_params = params,
        matched_middlewares = middlewares\<rparr>"
      by simp
    from Some have "m = meth" "matchPath (checkPath_of basePath p) path = (True, params)"
      by (simp_all add: method_matches_Some)
    with r have "leads_to (MethodNode m h p # nodes) [] (matched_node r)
       \<and> endpoint_method (matched_node r) = meth
       \<and> matchPath (checkPath_of (fullPath_along basePath [])
                       (endpoint_path (matched_node r))) path = (True, matched_params r)
       \<and> matched_middlewares r = middlewares @ concat (map node_middlewares [])"
      by (simp add: fullPath_along_def)
    then show ?thesis by blast
  next
    case None
    with 3(2) have "findRoute nodes meth path basePath middlewares = Some r" by simp
    from 3(1) [OF None this]
    obtain groups where g: "leads_to nodes groups (matched_node r)"
      "endpoint_method (matched_node r) = meth"
      "matchPath (checkPath_of (fullPath_along basePath groups)
          (endpoint_path (matched_node r))) path = (True, matched_params r)"
      "matched_middlewares r = middlewares @ concat (map node_middlewares groups)"
      by blast
    from g(1) have "leads_to (MethodNode m h p # nodes) groups (matched_node r)"
      by (rule leads_to_mono) auto
    with g show ?thesis by blast
  qed
qed (simp; blast intro: leads_to_skip)+

lemma findRoute_complete:
  "findRoute nodes meth path basePath mws = None \<Longrightarrow>
     leads_to nodes groups e \<Longrightarrow> endpoint_method e = meth \<Longrightarrow>
     \<not> fst (matchPath (checkPath_of (fullPath_along basePath groups) (endpoint_path e)) path)"
proof (induction nodes meth path basePath mws arbitrary: groups
       rule: findRoute.induct)
  case (1 meth path basePath middlewares)
  then show ?case by (cases groups) simp_all
next
  case (2 rpath children rmws nodes meth path basePath middlewares)
  let ?g = "RouteNode rpath children rmws"
  let ?full = "joinPaths [basePath, rpath]"
  let ?acc = "middlewares @ rmws"
  from 2(3) have direct: "findRoute_methods children meth path ?full ?acc = None"
    by (simp add: Let_def split: option.splits)
  from 2(3) have nested: "findRoute children meth path ?full ?acc = None"
    by (simp add: Let_def split: option.splits)
  from 2(3) have rest: "findRoute nodes meth path basePath middlewares = None"
    by (simp add: Let_def split: option.splits)
  show ?case
  proof (cases groups)
    case Nil
    with 2(4) have "leads_to nodes [] e" by auto
    from 2(2) [OF refl refl direct nested rest this 2(5)] Nil show ?thesis by simp
  next
    case (Cons g' gs)
    show ?thesis
    proof (cases "g' = ?g")
      case True
      with Cons 2(4) have "leads_to children gs e" by simp
      from 2(1) [OF refl refl direct nested this 2(5)] Cons True show ?thesis
        by (simp add: fullPath_along_Cons)
    next
      case False
      with Cons 2(4) have "leads_to nodes groups e" by simp
      from 2(2) [OF refl refl direct nested rest this 2(5)] show ?thesis .
    qed
  qed
next
  case (3 m h p nodes meth path basePath middlewares)
  from 3(2) have here: "method_matches meth path basePath m p = None"
    by (simp split: option.splits)
  from 3(2) have rest: "findRoute nodes meth path basePath middlewares = None"
    by (simp split: option.splits)
  show ?case
  proof (cases "groups = [] \<and> e = MethodNode m h p")
    case True
    with here 3(4) show ?thesis
      by (simp add: method_matches_None fullPath_along_def)
  next
    case False
    with 3(3) have "leads_to nodes groups e" by (cases groups) auto
    from 3(1) [OF here rest this 3(4)] show ?thesis .
  qed
qed (simp; metis is_method.simps is_route.simps leads_to.elims(2) leads_to.simps set_ConsD)+

text \<open>
  Claim C4. Resolution goes through siblings in declaration order: a list of siblings
  resolves to what its first part resolves to, and to what the rest resolves to only when
  the first part gives no match. At a group, the endpoints declared directly in it are
  tested first, each against the prefix of the group followed by its own suffix; the
  nested groups of the group are searched only when none of them matches, and the later
  siblings only after that. So when a direct endpoint of a group matches, resolution
  returns a direct endpoint of that group, whatever its nested groups hold.
\<close>

theorem findRoute_declaration_order:
  "findRoute (before @ after) meth path basePath mws =
     (case findRoute before meth path basePath mws of
        Some r \<Rightarrow> Some r
      | None \<Rightarrow> findRoute after meth path basePath mws)
   \<and> findRoute (RouteNode rpath children rmws # nodes) meth path basePath mws =
       (case find (spec_direct_match meth path (joinPaths [basePath, rpath])) children of
          Some e \<Rightarrow>
            Some \<lparr>matched_node = e,
                  matched_params =
                    snd (matchPath (checkPath_of (joinPaths [basePath, rpath])
                                      (endpoint_path e)) path),
                  matched_middlewares = mws @ rmws\<rparr>
        | None \<Rightarrow>
            (case findRoute (filter is_route children) meth path
                    (joinPaths [basePath, rpath]) (mws @ rmws) of
               Some r \<Rightarrow> Some r
             | None \<Rightarrow> findRoute nodes meth path basePath mws))
   \<and> ((\<exists>e \<in> set children. spec_direct_match meth path (joinPaths [basePath, rpath]) e)
        \<longrightarrow> (\<exists>r. findRoute (RouteNode rpath children rmws # nodes) meth path basePath mws
                    = Some r
                  \<and> matched_node r \<in> set children
                  \<and> spec_direct_match meth path (joinPaths [basePath, rpath])
                       (matched_node r)))"
proof -
  let ?full = "joinPaths [basePath, rpath]"
  let ?P = "spec_direct_match meth path ?full"
  have group: "findRoute (RouteNode rpath children rmws # nodes) meth path basePath mws =
       (case find ?P children of
          Some e \<Rightarrow>
            Some \<lparr>matched_node = e,
                  matched_params = snd (matchPath (checkPath_of ?full (endpoint_path e)) path),
                  matched_middlewares = mws @ rmws\<rparr>
        | None \<Rightarrow>
            (case findRoute (filter is_route children) meth path ?full (mws @ rmws) of
               Some r \<Rightarrow> Some r
             | None \<Rightarrow> findRoute nodes meth path basePath mws))"
  proof (cases "find ?P children")
    case None
    then have "findRoute_methods children meth path ?full (mws @ rmws) = None"
      by (simp add: findRoute_methods_find)
    with None show ?thesis
      using findRoute_only_routes [of children meth path ?full "mws @ rmws"]
      by (simp add: Let_def)
  next
    case (Some e)
    then show ?thesis by (simp add: Let_def findRoute_methods_find)
  qed
  have preferred: "(\<exists>e \<in> set children. ?P e)
        \<longrightarrow> (\<exists>r. findRoute (RouteNode rpath children rmws # nodes) meth path basePath mws
                    = Some r
                  \<and> matched_node r \<in> set children \<and> ?P (matched_node r))"
  proof
    assume "\<exists>e \<in> set children. ?P e"
    then obtain e where e: "find ?P children = Some e"
      by (cases "find ?P children") (auto simp: find_None_iff)
    then have "e \<in> set children" "?P e"
      by (auto simp: find_Some_iff)
    with e group show "\<exists>r. findRoute (RouteNode rpath children rmws # nodes) meth path
        basePath mws = Some r \<and> matched_node r \<in> set children \<and> ?P (matched_node r)"
      by simp
  qed
  from findRoute_append [of before after meth path basePath mws] group preferred
  show ?thesis by blast
qed

theorem findRoute_declaration_order_witness:
  "findRoute [RouteNode ''/api''
                [RouteNode ''/health'' [MethodNode ''GET'' (2::nat) None] [20::nat],
                 MethodNode ''GET'' 1 (Some ''/health'')]
                [10],
              RouteNode ''/api/health'' [MethodNode ''GET'' 3 None] [30]]
     ''GET'' ''/api/health'' [] [0]
   = Some \<lparr>matched_node = MethodNode ''GET'' 1 (Some ''/health''),
           matched_params = Map.empty, matched_middlewares = [0, 10]\<rparr>
   \<and> (\<exists>r. findRoute [RouteNode ''/api''
                [RouteNode ''/health'' [MethodNode ''GET'' (2::nat) None] [20::nat],
                 MethodNode ''GET'' 1 (Some ''/health'')]
                [10],
              RouteNode ''/api/health'' [MethodNode ''GET'' 3 None] [30]]
             ''GET'' ''/api/health'' [] [0] = Some r
          \<and> matched_node r \<in> set [RouteNode ''/health'' [MethodNode ''GET'' (2::nat) None] [20::nat],
                                  MethodNode ''GET'' 1 (Some ''/health'')])"
proof -
  have match: "matchPath ''/api/health'' ''/api/health'' = (True, Map.empty)"
    by (simp add: matchPath_def path_parts_def startsWith_colon_def)
  have join: "joinPaths [[], ''/api''] = ''/api''"
      "joinPaths [''/api'', ''/health''] = ''/api/health''"
    by (simp_all add: joinPaths_def strip_slashes_def)
  have direct: "spec_direct_match ''GET'' ''/api/health'' ''/api''
      (MethodNode ''GET'' (1::nat) (Some ''/health'') :: (nat, nat) ServerNode)"
    by (simp add: spec_direct_match_def checkPath_of_def join match)
  show ?thesis
    using findRoute_declaration_order
      [of "[]" "[RouteNode ''/api''
                [RouteNode ''/health'' [MethodNode ''GET'' (2::nat) None] [20::nat],
                 MethodNode ''GET'' 1 (Some ''/health'')]
                [10],
              RouteNode ''/api/health'' [MethodNode ''GET'' 3 None] [30]]"
          "''GET''" "''/api/health''" "[]" "[0]" "''/api''"
          "[RouteNode ''/health'' [MethodNode ''GET'' (2::nat) None] [20::nat],
                 MethodNode ''GET'' 1 (Some ''/health'')]" "[10]"
          "[RouteNode ''/api/health'' [MethodNode ''GET'' 3 None] [30]]"]
      direct
    by (simp add: join spec_direct_match_def checkPath_of_def match)
qed

lemma concat_two_blocks:
  assumes "i < j" and "j < length xs"
  shows "\<exists>a b c. concat xs = a @ xs ! i @ b @ xs ! j @ c"
proof -
  from assms have i: "i < length xs" by simp
  have split_i: "xs = take i xs @ xs ! i # drop (Suc i) xs"
    using i by (rule id_take_nth_drop)
  let ?ys = "drop (Suc i) xs"
  from assms have k: "j - Suc i < length ?ys" by simp
  have split_j: "?ys = take (j - Suc i) ?ys @ ?ys ! (j - Suc i) # drop (Suc (j - Suc i)) ?ys"
    using k by (rule id_take_nth_drop)
  from assms have nth: "?ys ! (j - Suc i) = xs ! j" by simp
  have "concat xs = concat (take i xs) @ xs ! i @ concat ?ys"
    by (subst split_i) simp
  also have "concat ?ys = concat (take (j - Suc i) ?ys) @ xs ! j
      @ concat (drop (Suc (j - Suc i)) ?ys)"
    by (subst split_j) (simp add: nth)
  finally show ?thesis by blast
qed

text \<open>
  Claim C5. When resolution returns an endpoint, there are groups leading to it from
  the root, those whose prefixes matched the path, and the middleware list returned is
  the list resolution started with followed by the middlewares of these groups, group by
  group from the outermost to the innermost, each group's in declaration order. So for
  any two of the groups the middlewares of the outer one stand before those of the inner
  one.
\<close>

theorem findRoute_middleware_order:
  "findRoute nodes meth path basePath mws = Some r \<longrightarrow>
     (\<exists>groups. leads_to nodes groups (matched_node r)
        \<and> matchPath (checkPath_of (fullPath_along basePath groups)
                        (endpoint_path (matched_node r))) path = (True, matched_params r)
        \<and> matched_middlewares r = mws @ concat (map node_middlewares groups)
        \<and> (\<forall>i j. i < j \<and> j < length groups \<longrightarrow>
              (\<exists>a b c. matched_middlewares r =
                  a @ node_middlewares (groups ! i) @ b @ node_middlewares (groups ! j) @ c)))"
proof
  assume "findRoute nodes meth path basePath mws = Some r"
  then obtain groups where g: "leads_to nodes groups (matched_node r)"
    "matchPath (checkPath_of (fullPath_along basePath groups)
        (endpoint_path (matched_node r))) path = (True, matched_params r)"
    "matched_middlewares r = mws @ concat (map node_middlewares groups)"
    using findRoute_sound [of nodes meth path basePath mws r] by blast
  have "\<exists>a b c. matched_middlewares r =
      a @ node_middlewares (groups ! i) @ b @ node_middlewares (groups ! j) @ c"
    if "i < j \<and> j < length groups" for i j
  proof -
    from that have bounds: "i < length groups" "j < length groups" by simp_all
    from that have "\<exists>a b c. concat (map node_middlewares groups) =
        a @ map node_middlewares groups ! i @ b @ map node_middlewares groups ! j @ c"
      by (intro concat_two_blocks) simp_all
    with bounds obtain a b c where "concat (map node_middlewares groups) =
        a @ node_middlewares (groups ! i) @ b @ node_middlewares (groups ! j) @ c"
      by (auto simp: nth_map)
    with g(3) have "matched_middlewares r =
        (mws @ a) @ node_middlewares (groups ! i) @ b @ node_middlewares (groups ! j) @ c"
      by simp
    then show ?thesis by blast
  qed
  with g show "\<exists>groups. leads_to nodes groups (matched_node r)
        \<and> matchPath (checkPath_of (fullPath_along basePath groups)
                        (endpoint_path (matched_node r))) path = (True, matched_params r)
        \<and> matched_middlewares r = mws @ concat (map node_middlewares groups)
        \<and> (\<forall>i j. i < j \<and> j < length groups \<longrightarrow>
              (\<exists>a b c. matched_middlewares r =
                  a @ node_middlewares (groups ! i) @ b @ node_middlewares (groups ! j) @ c))"
    by blast
qed

theorem findRoute_middleware_order_witness:
  "findRoute [RouteNode ''/api''
                [RouteNode ''/users'' [MethodNode ''GET'' (7::nat) None] [21::nat, 22]]
                [11, 12]]
     ''GET'' ''/api/users'' [] [1]
   = Some \<lparr>matched_node = MethodNode ''GET'' 7 None, matched_params = Map.empty,
           matched_middlewares = [1, 11, 12, 21, 22]\<rparr>
   \<and> (\<exists>groups. leads_to [RouteNode ''/api''
                [RouteNode ''/users'' [MethodNode ''GET'' (7::nat) None] [21::nat, 22]]
                [11, 12]] groups (MethodNode ''GET'' 7 None)
        \<and> [1, 11, 12, 21, 22] = [1] @ concat (map node_middlewares groups)
        \<and> 1 < length groups
        \<and> (\<exists>a b c. [1, 11, 12, 21, 22]
              = a @ node_middlewares (groups ! 0) @ b @ node_middlewares (groups ! 1) @ c))"
proof -
  let ?inner = "RouteNode ''/users'' [MethodNode ''GET'' (7::nat) None] [21::nat, 22]"
  let ?tree = "[RouteNode ''/api'' [?inner] [11, 12]]"
  let ?r = "\<lparr>matched_node = MethodNode ''GET'' (7::nat) None, matched_params = Map.empty,
           matched_middlewares = [1::nat, 11, 12, 21, 22]\<rparr>"
  have match: "matchPath ''/api/users'' ''/api/users'' = (True, Map.empty)"
    by (simp add: matchPath_def path_parts_def startsWith_colon_def)
  have join: "joinPaths [[], ''/api''] = ''/api''"
      "joinPaths [''/api'', ''/users''] = ''/api/users''"
    by (simp_all add: joinPaths_def strip_slashes_def)
  have found: "findRoute ?tree ''GET'' ''/api/users'' [] [1] = Some ?r"
    by (simp add: Let_def join method_matches_def checkPath_of_def match)
  from found findRoute_middleware_order [of ?tree "''GET''" "''/api/users''" "[]" "[1]" ?r]
  obtain groups where g: "leads_to ?tree groups (MethodNode ''GET'' 7 None)"
      "[1, 11, 12, 21, 22] = [1] @ concat (map node_middlewares groups)"
      "\<forall>i j. i < j \<and> j < length groups \<longrightarrow>
         (\<exists>a b c. [1, 11, 12, 21, 22] =
             a @ node_middlewares (groups ! i) @ b @ node_middlewares (groups ! j) @ c)"
    by auto
  have long: "1 < length groups"
  proof (cases groups)
    case Nil
    with g(1) show ?thesis by simp
  next
    case (Cons g1 gs)
    with g(1) have "leads_to [?inner] gs (MethodNode ''GET'' 7 None)" by auto
    then have "gs \<noteq> []" by (cases gs) auto
    with Cons show ?thesis by (cases gs) simp_all
  qed
  with g(3) have "\<exists>a b c. [1, 11, 12, 21, 22] =
      a @ node_middlewares (groups ! 0) @ b @ node_middlewares (groups ! 1) @ c"
    by simp
  with found g(1,2) long show ?thesis by blast
qed

lemma checkPath_spec_pattern_eq:
  assumes "groups \<noteq> [] \<or> (\<exists>suffix. endpoint_path e = Some suffix \<and> suffix \<noteq> [])"
  shows "checkPath_of (fullPath_along [] groups) (endpoint_path e) = spec_pattern groups e"
proof (cases "groups = []")
  case True
  with assms obtain suffix where "endpoint_path e = Some suffix" "suffix \<noteq> []" by blast
  with True show ?thesis
    by (simp add: checkPath_of_def spec_pattern_def fullPath_along_def joinPaths_empty_first)
next
  case False
  then have full: "fullPath_along [] groups = joinPaths (map route_path groups)"
    by (rule fullPath_along_root)
  show ?thesis
  proof (cases "endpoint_path e")
    case None
    then show ?thesis by (simp add: checkPath_of_def spec_pattern_def full)
  next
    case (Some suffix)
    show ?thesis
    proof (cases "suffix = []")
      case True
      with Some show ?thesis
        using joinPaths_empty_last [of "map route_path groups"]
        by (simp add: checkPath_of_def spec_pattern_def full)
    next
      case False
      with Some show ?thesis
        by (simp add: checkPath_of_def spec_pattern_def full joinPaths_nested)
    qed
  qed
qed

text \<open>
  Claim C9. The pattern an endpoint is matched against is \<open>joinPaths\<close> of the prefixes
  of its ancestor groups, from the root to the leaf, followed by its own suffix when it
  has one: resolution from the root finds a match exactly when some endpoint bound to
  the method has such a pattern matching the path, and the endpoint it returns matched
  its pattern with the parameters returned. The text the code builds step by step is
  this pattern, except for an endpoint with no group above it and no suffix, where the
  code matches against the empty text and the pattern is \<^verbatim>\<open>/\<close>; the two have the same
  segments. Also \<^verbatim>\<open>joinPaths("/api/", "/users/")\<close> is \<^verbatim>\<open>/api/users\<close> and \<^verbatim>\<open>joinPaths("", "")\<close> is
  \<^verbatim>\<open>/\<close>.
\<close>

theorem findRoute_effective_pattern:
  "(findRoute nodes meth path [] mws \<noteq> None \<longleftrightarrow>
      (\<exists>groups e. leads_to nodes groups e \<and> endpoint_method e = meth
         \<and> fst (matchPath (spec_pattern groups e) path)))
   \<and> (findRoute nodes meth path [] mws = Some r \<longrightarrow>
        (\<exists>groups. leads_to nodes groups (matched_node r)
           \<and> endpoint_method (matched_node r) = meth
           \<and> matchPath (spec_pattern groups (matched_node r)) path = (True, matched_params r)))
   \<and> matchPath (checkPath_of (fullPath_along [] groups) (endpoint_path e)) path
       = matchPath (spec_pattern groups e) path
   \<and> (groups \<noteq> [] \<or> (\<exists>suffix. endpoint_path e = Some suffix \<and> suffix \<noteq> [])
        \<longrightarrow> checkPath_of (fullPath_along [] groups) (endpoint_path e) = spec_pattern groups e)
   \<and> joinPaths [''/api/'', ''/users/''] = ''/api/users''
   \<and> joinPaths [[], []] = ''/''"
proof -
  have sound: "findRoute nodes meth path [] mws = Some r \<longrightarrow>
        (\<exists>groups. leads_to nodes groups (matched_node r)
           \<and> endpoint_method (matched_node r) = meth
           \<and> matchPath (spec_pattern groups (matched_node r)) path = (True, matched_params r))"
    for r
  proof
    assume "findRoute nodes meth path [] mws = Some r"
    then obtain groups where "leads_to nodes groups (matched_node r)"
      "endpoint_method (matched_node r) = meth"
      "matchPath (checkPath_of (fullPath_along [] groups)
          (endpoint_path (matched_node r))) path = (True, matched_params r)"
      using findRoute_sound [of nodes meth path "[]" mws r] by blast
    then show "\<exists>groups. leads_to nodes groups (matched_node r)
           \<and> endpoint_method (matched_node r) = meth
           \<and> matchPath (spec_pattern groups (matched_node r)) path = (True, matched_params r)"
      by (auto simp: checkPath_spec_pattern)
  qed
  have exact: "findRoute nodes meth path [] mws \<noteq> None \<longleftrightarrow>
      (\<exists>groups e. leads_to nodes groups e \<and> endpoint_method e = meth
         \<and> fst (matchPath (spec_pattern groups e) path))"
  proof
    assume "findRoute nodes meth path [] mws \<noteq> None"
    then obtain r0 where "findRoute nodes meth path [] mws = Some r0" by blast
    with sound [of r0] show "\<exists>groups e. leads_to nodes groups e \<and> endpoint_method e = meth
         \<and> fst (matchPath (spec_pattern groups e) path)"
      by force
  next
    assume "\<exists>groups e. leads_to nodes groups e \<and> endpoint_method e = meth
         \<and> fst (matchPath (spec_pattern groups e) path)"
    then obtain groups e where ge: "leads_to nodes groups e" "endpoint_method e = meth"
      "fst (matchPath (checkPath_of (fullPath_along [] groups) (endpoint_path e)) path)"
      by (auto simp: checkPath_spec_pattern)
    show "findRoute nodes meth path [] mws \<noteq> None"
    proof
      assume "findRoute nodes meth path [] mws = None"
      from findRoute_complete [OF this ge(1) ge(2)] ge(3) show False by simp
    qed
  qed
  have ex1: "joinPaths [''/api/'', ''/users/''] = ''/api/users''"
    by (simp add: joinPaths_def strip_slashes_def)
  have ex2: "joinPaths [[], []] = ''/''"
    by (simp add: joinPaths_def strip_slashes_def)
  from exact sound [of r] checkPath_spec_pattern [of groups e path]
    checkPath_spec_pattern_eq [of groups e] ex1 ex2
  show ?thesis by blast
qed

theorem findRoute_effective_pattern_witness:
  "findRoute [RouteNode ''/users''
                [MethodNode ''GET'' (1::nat) None,
                 RouteNode ''/:id'' [MethodNode ''GET'' 2 None] ([]::nat list)] []]
     ''GET'' ''/users/42'' [] [] \<noteq> None
   \<and> (\<exists>groups. leads_to [RouteNode ''/users''
                [MethodNode ''GET'' (1::nat) None,
                 RouteNode ''/:id'' [MethodNode ''GET'' 2 None] ([]::nat list)] []]
          groups (MethodNode ''GET'' 2 None)
        \<and> matchPath (spec_pattern groups (MethodNode ''GET'' (2::nat) None :: (nat, nat) ServerNode))
            ''/users/42'' = (True, [''id'' \<mapsto> ''42'']))
   \<and> checkPath_of (fullPath_along []
        [RouteNode ''/users'' [] [], RouteNode ''/:id'' [] [] :: (nat, nat) ServerNode])
        (Some ''/posts'')
      = spec_pattern [RouteNode ''/users'' [] [], RouteNode ''/:id'' [] []]
          (MethodNode ''GET'' (3::nat) (Some ''/posts'') :: (nat, nat) ServerNode)"
proof -
  let ?tree = "[RouteNode ''/users''
                [MethodNode ''GET'' (1::nat) None,
                 RouteNode ''/:id'' [MethodNode ''GET'' 2 None] ([]::nat list)] []]"
  let ?r = "\<lparr>matched_node = MethodNode ''GET'' (2::nat) None,
             matched_params = [''id'' \<mapsto> ''42''],
             matched_middlewares = ([]::nat list)\<rparr>"
  have parts: "path_parts ''/users'' = [''users'']" "path_parts ''/users/:id'' = [''users'', '':id'']"
    "path_parts ''/users/42'' = [''users'', ''42'']"
    by (simp_all add: path_parts_def)
  have join: "joinPaths [[], ''/users''] = ''/users''"
      "joinPaths [''/users'', ''/:id''] = ''/users/:id''"
    by (simp_all add: joinPaths_def strip_slashes_def)
  have found: "findRoute ?tree ''GET'' ''/users/42'' [] [] = Some ?r"
    by (simp add: Let_def join method_matches_def checkPath_of_def matchPath_def parts
          startsWith_colon_def record_set_def)
  show ?thesis
    using findRoute_effective_pattern [of ?tree "''GET''" "''/users/42''" "[]" ?r
        "[RouteNode ''/users'' [] [], RouteNode ''/:id'' [] []]"
        "MethodNode ''GET'' (3::nat) (Some ''/posts'')"]
    unfolding found
    by (simp del: leads_to.simps) blast
qed

section \<open>Properties of request dispatch\<close>











subsection \<open>The middleware chain\<close>

text \<open>
  The bodies suspended below the running one are resumed only when it returns, and an
  error leaves them all.
\<close>

lemma run_frames_append:
  "run_frames ctx mws (fs @ gs) s =
     (case run_frames ctx mws fs s of
        (Some error, s') \<Rightarrow> (Some error, s')
      | (None, s') \<Rightarrow> run_frames ctx mws gs s')"
  by (induction ctx mws fs s rule: run_frames.induct) (auto split: sum.splits)

text \<open>
  The closure \<^verbatim>\<open>next\<close> and the body of a middleware as the source writes them: \<^verbatim>\<open>next\<close> calls
  the middleware at the cursor and awaits it; a body that awaits \<^verbatim>\<open>next\<close> goes on when it
  returns and ends with its error when it throws.
\<close>

lemma run_frames_Cons:
  "run_frames ctx mws (f # fs) s =
     (case run_frames ctx mws [f] s of
        (Some error, s') \<Rightarrow> (Some error, s')
      | (None, s') \<Rightarrow> run_frames ctx mws fs s')"
  using run_frames_append [of ctx mws "[f]" fs s] by simp

lemma run_next_unfold:
  "run_next ctx mws s =
     (if st_index s < length mws
      then run_body ctx mws ((mws ! st_index s) ctx)
             (s\<lparr>st_index := st_index s + 1,
                st_calls := st_calls s @ [MiddlewareCalled (st_index s)]\<rparr>)
      else (None, s))"
proof (cases "st_index s < length mws")
  case True
  let ?s = "s\<lparr>st_index := st_index s + 1,
              st_calls := st_calls s @ [MiddlewareCalled (st_index s)]\<rparr>"
  let ?body = "(mws ! st_index s) ctx"
  obtain outcome s' where r: "run_frames ctx mws [?body] ?s = (outcome, s')"
    by (cases "run_frames ctx mws [?body] ?s")
  have "run_frames ctx mws [?body, []] ?s = (outcome, s')"
    unfolding run_frames_Cons [of ctx mws ?body "[[]]" ?s] r by (cases outcome) simp_all
  with True r show ?thesis
    by (simp add: run_next_def run_body_def)
next
  case False
  then show ?thesis by (simp add: run_next_def)
qed

lemma run_body_Nil: "run_body ctx mws [] s = (None, s)"
  by (simp add: run_body_def)

lemma run_body_Do:
  "run_body ctx mws (Do e # rest) s =
     (case apply_effect e (st_res s) of
        Inl error \<Rightarrow> (Some error, s)
      | Inr r \<Rightarrow> run_body ctx mws rest (s\<lparr>st_res := r\<rparr>))"
  by (simp add: run_body_def split: sum.splits)

lemma run_body_AwaitNext:
  "run_body ctx mws (AwaitNext # rest) s =
     (case run_next ctx mws s of
        (Some error, s') \<Rightarrow> (Some error, s')
      | (None, s') \<Rightarrow> run_body ctx mws rest s')"
proof (cases "st_index s < length mws")
  case True
  let ?s = "s\<lparr>st_index := st_index s + 1,
              st_calls := st_calls s @ [MiddlewareCalled (st_index s)]\<rparr>"
  let ?body = "(mws ! st_index s) ctx"
  obtain outcome s' where r: "run_frames ctx mws [?body] ?s = (outcome, s')"
    by (cases "run_frames ctx mws [?body] ?s")
  have n: "run_next ctx mws s = (outcome, s')"
    using True r by (simp add: run_next_unfold run_body_def)
  have "run_frames ctx mws [?body, rest] ?s =
      (case outcome of Some error \<Rightarrow> (Some error, s') | None \<Rightarrow> run_frames ctx mws [rest] s')"
    unfolding run_frames_Cons [of ctx mws ?body "[rest]" ?s] r by (cases outcome) simp_all
  with True show ?thesis
    by (cases outcome) (simp_all add: run_body_def n)
next
  case False
  then show ?thesis
    by (simp add: run_body_def run_next_unfold)
qed

subsection \<open>Requests that match no endpoint\<close>

lemma content_type_lower: "toLowerCase ''Content-Type'' = ''content-type''"
  by code_simp

lemma setHeader_unsent:
  "\<not> headersSent r \<Longrightarrow>
     setHeader ''Content-Type'' ''application/json'' r =
       Inr (r\<lparr>headers := (headers r)(''content-type'' \<mapsto> ''application/json'')\<rparr>)"
  by (simp add: setHeader_def content_type_lower)

lemma setHeader_sent:
  "headersSent r \<Longrightarrow> setHeader k v r = Inl ERR_HTTP_HEADERS_SENT"
  by (simp add: setHeader_def)

lemma handleRequest_unmatched:
  assumes "new_URL (request_url req) (request_base req) = Inr url"
    and "parseQueryString (drop 1 (url_search url)) = Inr query"
    and "findRoute (node_children serverNode) (request_method req) (url_pathname url) []
           (node_middlewares serverNode) = None"
  shows "handleRequest new_URL JSON_parse JSON_stringify serverNode req res =
     (case setHeader ''Content-Type'' ''application/json'' (res\<lparr>statusCode := 404\<rparr>) of
        Inl error \<Rightarrow> Rejected error
      | Inr r \<Rightarrow>
          Resolved
            \<lparr>st_res =
               res_end
                 (Some (JSON_stringify (not_found_body (url_pathname url) (request_method req))))
                 r,
             st_index = 0, st_calls = []\<rparr>)"
  using assms by (simp add: handleRequest_def Let_def)

text \<open>
  Claim C2, amended. For every request whose URL parses, whose query string decodes and
  whose method and path match no endpoint of the tree, dispatch on a response of which
  nothing has been sent sets the status 404 and the JSON content type and ends the
  response with the serialized object of the error kind \<^verbatim>\<open>Not Found\<close>, the requested path
  and the requested method; no middleware and no handler is called, whatever middlewares
  the root of the tree has.
\<close>

theorem handleRequest_not_found:
  "new_URL (request_url req) (request_base req) = Inr url \<longrightarrow>
   parseQueryString (drop 1 (url_search url)) = Inr query \<longrightarrow>
   findRoute (node_children serverNode) (request_method req) (url_pathname url) []
     (node_middlewares serverNode) = None \<longrightarrow>
   \<not> headersSent res \<longrightarrow>
   handleRequest new_URL JSON_parse JSON_stringify serverNode req res =
     Resolved
       \<lparr>st_res =
          res\<lparr>statusCode := 404,
              headers := (headers res)(''content-type'' \<mapsto> ''application/json''),
              phase := Finished,
              chunks :=
                chunks res
                @ (if JSON_stringify
                        (JObject [(''error'', JString ''Not Found''),
                                  (''path'', JString (url_pathname url)),
                                  (''method'', JString (request_method req))]) = []
                   then []
                   else [JSON_stringify
                           (JObject [(''error'', JString ''Not Found''),
                                     (''path'', JString (url_pathname url)),
                                     (''method'', JString (request_method req))])])\<rparr>,
        st_index = 0, st_calls = []\<rparr>"
proof (intro impI)
  assume a: "new_URL (request_url req) (request_base req) = Inr url"
    "parseQueryString (drop 1 (url_search url)) = Inr query"
    "findRoute (node_children serverNode) (request_method req) (url_pathname url) []
     (node_middlewares serverNode) = None"
  assume fresh: "\<not> headersSent res"
  then have "\<not> headersSent (res\<lparr>statusCode := 404\<rparr>)"
    by (simp add: headersSent_def)
  from setHeader_unsent [OF this] fresh
  show "handleRequest new_URL JSON_parse JSON_stringify serverNode req res =
     Resolved
       \<lparr>st_res =
          res\<lparr>statusCode := 404,
              headers := (headers res)(''content-type'' \<mapsto> ''application/json''),
              phase := Finished,
              chunks :=
                chunks res
                @ (if JSON_stringify
                        (JObject [(''error'', JString ''Not Found''),
                                  (''path'', JString (url_pathname url)),
                                  (''method'', JString (request_method req))]) = []
                   then []
                   else [JSON_stringify
                           (JObject [(''error'', JString ''Not Found''),
                                     (''path'', JString (url_pathname url)),
                                     (''method'', JString (request_method req))])])\<rparr>,
        st_index = 0, st_calls = []\<rparr>"
    by (simp add: handleRequest_unmatched [where new_URL = new_URL and req = req, OF a] res_end_def headersSent_def writableEnded_def
          not_found_body_def)
qed

lemma sample_query: "parseQueryString ''x=1'' = Inr [''x'' \<mapsto> ''1'']"
  by (simp add: parseQueryString_def Let_def record_set_def)

lemma sample_unmatched:
  "findRoute [RouteNode ''/users'' [MethodNode ''GET'' h None] []] ''GET'' ''/posts'' [] mws = None"
  by (simp add: Let_def method_matches_def checkPath_of_def matchPath_def path_parts_def
        joinPaths_def strip_slashes_def startsWith_colon_def)

lemma sample_get:
  "request_method \<lparr>req_method = Some ''GET'', req_url = u, req_host = h, req_stream = evs\<rparr>
     = ''GET''"
  by (simp add: request_method_def) code_simp

theorem handleRequest_not_found_witness:
  "\<forall>JSON_parse JSON_stringify.
     handleRequest sample_URL JSON_parse JSON_stringify
       (ServerRoot 3000
          [RouteNode ''/users'' [MethodNode ''GET'' (\<lambda>ctx. ([], JString ''users'')) None] []]
          [\<lambda>ctx. [Do (SetHeader ''X-Log'' ''seen''), AwaitNext]])
       \<lparr>req_method = Some ''GET'', req_url = Some ''/posts?x=1'',
          req_host = Some ''localhost'', req_stream = [End]\<rparr>
       \<lparr>statusCode = 200, headers = Map.empty, phase = Unsent, chunks = []\<rparr>
     = Resolved
         \<lparr>st_res =
            \<lparr>statusCode = 404,
               headers = [''content-type'' \<mapsto> ''application/json''],
               phase = Finished,
               chunks =
                 (if JSON_stringify
                       (JObject [(''error'', JString ''Not Found''),
                                 (''path'', JString ''/posts''),
                                 (''method'', JString ''GET'')]) = []
                  then []
                  else [JSON_stringify
                          (JObject [(''error'', JString ''Not Found''),
                                    (''path'', JString ''/posts''),
                                    (''method'', JString ''GET'')])])\<rparr>,
          st_index = 0, st_calls = []\<rparr>"
proof (intro allI)
  fix JSON_parse :: "string \<Rightarrow> jsvalue option" and JSON_stringify :: "jsvalue \<Rightarrow> string"
  let ?req = "\<lparr>req_method = Some ''GET'', req_url = Some ''/posts?x=1'',
          req_host = Some ''localhost'', req_stream = [End]\<rparr>"
  show "handleRequest sample_URL JSON_parse JSON_stringify
       (ServerRoot 3000
          [RouteNode ''/users'' [MethodNode ''GET'' (\<lambda>ctx. ([], JString ''users'')) None] []]
          [\<lambda>ctx. [Do (SetHeader ''X-Log'' ''seen''), AwaitNext]])
       ?req
       \<lparr>statusCode = 200, headers = Map.empty, phase = Unsent, chunks = []\<rparr>
     = Resolved
         \<lparr>st_res =
            \<lparr>statusCode = 404,
               headers = [''content-type'' \<mapsto> ''application/json''],
               phase = Finished,
               chunks =
                 (if JSON_stringify
                       (JObject [(''error'', JString ''Not Found''),
                                 (''path'', JString ''/posts''),
                                 (''method'', JString ''GET'')]) = []
                  then []
                  else [JSON_stringify
                          (JObject [(''error'', JString ''Not Found''),
                                    (''path'', JString ''/posts''),
                                    (''method'', JString ''GET'')])])\<rparr>,
          st_index = 0, st_calls = []\<rparr>"
    using handleRequest_not_found [where new_URL = sample_URL and req = ?req
        and url = "\<lparr>url_pathname = ''/posts'', url_search = ''?x=1''\<rparr>"
        and query = "[''x'' \<mapsto> ''1'']"
        and serverNode = "ServerRoot 3000
          [RouteNode ''/users'' [MethodNode ''GET'' (\<lambda>ctx. ([], JString ''users'')) None] []]
          [\<lambda>ctx. [Do (SetHeader ''X-Log'' ''seen''), AwaitNext]]"
        and JSON_parse = JSON_parse and JSON_stringify = JSON_stringify
        and res = "\<lparr>statusCode = 200, headers = Map.empty, phase = Unsent, chunks = []\<rparr>"]
    by (simp add: sample_get sample_query sample_unmatched request_url_def request_base_def
          headersSent_def del: findRoute.simps)
qed

text \<open>
  The claim as first stated fails on three requests that match no endpoint. The query
  string of the first does not decode: \<^verbatim>\<open>parseQueryString\<close> throws before resolution is
  attempted. The request target of the second does not parse: the constructor \<^verbatim>\<open>URL\<close>
  throws. The third comes with a response whose headers are already sent: the call of
  \<^verbatim>\<open>setHeader\<close> throws. Each of them is thrown outside any \<^verbatim>\<open>try\<close>, and the promise of the
  dispatcher is rejected with no body written.
\<close>

theorem handleRequest_not_found_counterexample:
  "findRoute (node_children (ServerRoot 3000 [] []))
     (request_method \<lparr>req_method = Some ''GET'', req_url = Some ''/nonexistent?%'',
                       req_host = Some ''localhost'', req_stream = [End]\<rparr>)
     ''/nonexistent'' [] (node_middlewares (ServerRoot 3000 [] [])) = None
   \<and> handleRequest sample_URL (\<lambda>text. None) (\<lambda>v. ''{}'') (ServerRoot 3000 [] [])
       \<lparr>req_method = Some ''GET'', req_url = Some ''/nonexistent?%'',
          req_host = Some ''localhost'', req_stream = [End]\<rparr>
       \<lparr>statusCode = 200, headers = Map.empty, phase = Unsent, chunks = []\<rparr>
     = Rejected URIError
   \<and> handleRequest sample_URL (\<lambda>text. None) (\<lambda>v. ''{}'') (ServerRoot 3000 [] [])
       \<lparr>req_method = Some ''GET'', req_url = Some ''//'',
          req_host = Some ''localhost'', req_stream = [End]\<rparr>
       \<lparr>statusCode = 200, headers = Map.empty, phase = Unsent, chunks = []\<rparr>
     = Rejected (ErrorObject ''Invalid URL'')
   \<and> handleRequest sample_URL (\<lambda>text. None) (\<lambda>v. ''{}'') (ServerRoot 3000 [] [])
       \<lparr>req_method = Some ''GET'', req_url = Some ''/nonexistent'',
          req_host = Some ''localhost'', req_stream = [End]\<rparr>
       \<lparr>statusCode = 200, headers = Map.empty, phase = Started, chunks = [''partial'']\<rparr>
     = Rejected ERR_HTTP_HEADERS_SENT"
  by (simp add: handleRequest_def parseQueryString_def Let_def request_url_def
        request_base_def setHeader_def headersSent_def)

subsection \<open>Errors of middlewares and handlers\<close>

lemma leads_to_is_method: "leads_to nodes groups e \<Longrightarrow> is_method e"
  by (induction groups arbitrary: nodes) auto

lemma findRoute_handler:
  "findRoute nodes meth path basePath mws = Some r \<Longrightarrow> \<exists>h. node_handler (matched_node r) = Some h"
proof -
  assume "findRoute nodes meth path basePath mws = Some r"
  from findRoute_sound [OF this] obtain groups where "leads_to nodes groups (matched_node r)"
    by blast
  then have "is_method (matched_node r)"
    by (rule leads_to_is_method)
  then show ?thesis
    by (cases "matched_node r") simp_all
qed

lemma handleRequest_try_middleware_error:
  "run_next ctx mws s0 = (Some error, s1) \<Longrightarrow>
     handleRequest_try JSON_stringify ctx mws handler_opt s0 = (Some error, s1)"
  by (simp add: handleRequest_try_def)

lemma handleRequest_try_handler_error:
  "run_next ctx mws s0 = (None, s1) \<Longrightarrow>
     run_effects (fst (h ctx)) (st_res s1) = (Some error, r) \<Longrightarrow>
     handleRequest_try JSON_stringify ctx mws (Some h) s0 =
       (Some error, s1\<lparr>st_calls := st_calls s1 @ [HandlerCalled], st_res := r\<rparr>)"
  by (cases "h ctx") (simp add: handleRequest_try_def Let_def)

lemma handleRequest_matched:
  assumes "new_URL (request_url req) (request_base req) = Inr url"
    and "parseQueryString (drop 1 (url_search url)) = Inr query"
    and "findRoute (node_children serverNode) (request_method req) (url_pathname url) []
           (node_middlewares serverNode) = Some matched"
    and "parseBody JSON_parse (req_stream req) = Resolved body"
  shows "handleRequest new_URL JSON_parse JSON_stringify serverNode req res =
     (case handleRequest_try JSON_stringify
             \<lparr>ctx_params = matched_params matched, ctx_query = query,
                ctx_path = url_pathname url, ctx_method = request_method req,
                ctx_body = body\<rparr>
             (matched_middlewares matched) (node_handler (matched_node matched))
             \<lparr>st_res = res, st_index = 0, st_calls = []\<rparr> of
        (None, s) \<Rightarrow> Resolved s
      | (Some error, s) \<Rightarrow>
          (case handleRequest_catch JSON_stringify error (st_res s) of
             Inl raised \<Rightarrow> Rejected raised
           | Inr r \<Rightarrow> Resolved (s\<lparr>st_res := r\<rparr>)))"
  using assms by (simp add: handleRequest_def Let_def)

lemma handleRequest_catch_unsent:
  "\<not> headersSent r \<Longrightarrow>
     handleRequest_catch JSON_stringify error r =
       Inr (r\<lparr>statusCode := 500,
              headers := (headers r)(''content-type'' \<mapsto> ''application/json''),
              phase := Finished,
              chunks :=
                chunks r
                @ (if JSON_stringify (server_error_body error) = [] then []
                   else [JSON_stringify (server_error_body error)])\<rparr>)"
proof -
  assume fresh: "\<not> headersSent r"
  then have "\<not> headersSent (r\<lparr>statusCode := 500\<rparr>)"
    by (simp add: headersSent_def)
  from setHeader_unsent [OF this] fresh show ?thesis
    by (simp add: handleRequest_catch_def res_end_def headersSent_def writableEnded_def)
qed

lemma handleRequest_catch_ended:
  "writableEnded r \<Longrightarrow> handleRequest_catch JSON_stringify error r = Inr r"
  by (simp add: handleRequest_catch_def)

lemma handleRequest_catch_started:
  "headersSent r \<Longrightarrow> \<not> writableEnded r \<Longrightarrow>
     handleRequest_catch JSON_stringify error r = Inl ERR_HTTP_HEADERS_SENT"
  by (simp add: handleRequest_catch_def setHeader_def headersSent_def)

text \<open>
  An error that escapes the middlewares or the handler of a matched request: the run of
  the chain from the first middleware ends with the error, or the chain returns and the
  run of the handler ends with the error; \<open>s\<close> is the state at that point. If nothing of
  the response has been sent at that point, the promise of the dispatcher resolves, and
  the response gets the status 500 and the JSON content type and is ended with the
  serialized object of the error kind \<^verbatim>\<open>Internal Server Error\<close> and a message: the message
  of the error when it is an \<^verbatim>\<open>Error\<close>, and \<^verbatim>\<open>Unknown error\<close> otherwise. If the response is
  already ended at that point, the promise of the dispatcher resolves and the response is
  left as it is.
\<close>

lemma handleRequest_error_caught:
  "new_URL (request_url req) (request_base req) = Inr url \<longrightarrow>
   parseQueryString (drop 1 (url_search url)) = Inr query \<longrightarrow>
   findRoute (node_children serverNode) (request_method req) (url_pathname url) []
     (node_middlewares serverNode) = Some matched \<longrightarrow>
   node_handler (matched_node matched) = Some h \<longrightarrow>
   parseBody JSON_parse (req_stream req) = Resolved body \<longrightarrow>
   ctx = \<lparr>ctx_params = matched_params matched, ctx_query = query,
           ctx_path = url_pathname url, ctx_method = request_method req, ctx_body = body\<rparr> \<longrightarrow>
   (run_next ctx (matched_middlewares matched) \<lparr>st_res = res, st_index = 0, st_calls = []\<rparr>
      = (Some error, s)
    \<or> (\<exists>s1 r. run_next ctx (matched_middlewares matched)
                  \<lparr>st_res = res, st_index = 0, st_calls = []\<rparr> = (None, s1)
          \<and> run_effects (fst (h ctx)) (st_res s1) = (Some error, r)
          \<and> s = s1\<lparr>st_calls := st_calls s1 @ [HandlerCalled], st_res := r\<rparr>)) \<longrightarrow>
   (\<not> headersSent (st_res s) \<longrightarrow>
      handleRequest new_URL JSON_parse JSON_stringify serverNode req res =
        Resolved
          (s\<lparr>st_res :=
               (st_res s)
                 \<lparr>statusCode := 500,
                    headers := (headers (st_res s))(''content-type'' \<mapsto> ''application/json''),
                    phase := Finished,
                    chunks :=
                      chunks (st_res s)
                      @ (if JSON_stringify
                              (JObject
                                 [(''error'', JString ''Internal Server Error''),
                                  (''message'',
                                   JString (case error of
                                              ErrorObject message \<Rightarrow> message
                                            | NonError \<Rightarrow> ''Unknown error''))]) = []
                         then []
                         else [JSON_stringify
                                 (JObject
                                    [(''error'', JString ''Internal Server Error''),
                                     (''message'',
                                      JString (case error of
                                                 ErrorObject message \<Rightarrow> message
                                               | NonError \<Rightarrow> ''Unknown error''))])])\<rparr>\<rparr>))
   \<and> (writableEnded (st_res s) \<longrightarrow>
        handleRequest new_URL JSON_parse JSON_stringify serverNode req res = Resolved s)"
proof (intro impI)
  assume a: "new_URL (request_url req) (request_base req) = Inr url"
    "parseQueryString (drop 1 (url_search url)) = Inr query"
    "findRoute (node_children serverNode) (request_method req) (url_pathname url) []
       (node_middlewares serverNode) = Some matched"
    "parseBody JSON_parse (req_stream req) = Resolved body"
  assume h: "node_handler (matched_node matched) = Some h"
  assume ctx: "ctx = \<lparr>ctx_params = matched_params matched, ctx_query = query,
           ctx_path = url_pathname url, ctx_method = request_method req, ctx_body = body\<rparr>"
  assume escapes: "run_next ctx (matched_middlewares matched)
        \<lparr>st_res = res, st_index = 0, st_calls = []\<rparr> = (Some error, s)
    \<or> (\<exists>s1 r. run_next ctx (matched_middlewares matched)
                  \<lparr>st_res = res, st_index = 0, st_calls = []\<rparr> = (None, s1)
          \<and> run_effects (fst (h ctx)) (st_res s1) = (Some error, r)
          \<and> s = s1\<lparr>st_calls := st_calls s1 @ [HandlerCalled], st_res := r\<rparr>)"
  have t: "handleRequest_try JSON_stringify ctx (matched_middlewares matched) (Some h)
      \<lparr>st_res = res, st_index = 0, st_calls = []\<rparr> = (Some error, s)"
    using escapes handleRequest_try_middleware_error handleRequest_try_handler_error
    by blast
  have dispatch: "handleRequest new_URL JSON_parse JSON_stringify serverNode req res =
      (case handleRequest_catch JSON_stringify error (st_res s) of
         Inl raised \<Rightarrow> Rejected raised
       | Inr r \<Rightarrow> Resolved (s\<lparr>st_res := r\<rparr>))"
    using t
    by (simp add: handleRequest_matched [where new_URL = new_URL and req = req, OF a] h
          ctx [symmetric])
  show "(\<not> headersSent (st_res s) \<longrightarrow>
      handleRequest new_URL JSON_parse JSON_stringify serverNode req res =
        Resolved
          (s\<lparr>st_res :=
               (st_res s)
                 \<lparr>statusCode := 500,
                    headers := (headers (st_res s))(''content-type'' \<mapsto> ''application/json''),
                    phase := Finished,
                    chunks :=
                      chunks (st_res s)
                      @ (if JSON_stringify
                              (JObject
                                 [(''error'', JString ''Internal Server Error''),
                                  (''message'',
                                   JString (case error of
                                              ErrorObject message \<Rightarrow> message
                                            | NonError \<Rightarrow> ''Unknown error''))]) = []
                         then []
                         else [JSON_stringify
                                 (JObject
                                    [(''error'', JString ''Internal Server Error''),
                                     (''message'',
                                      JString (case error of
                                                 ErrorObject message \<Rightarrow> message
                                               | NonError \<Rightarrow> ''Unknown error''))])])\<rparr>\<rparr>))
   \<and> (writableEnded (st_res s) \<longrightarrow>
        handleRequest new_URL JSON_parse JSON_stringify serverNode req res = Resolved s)"
    by (simp add: dispatch handleRequest_catch_unsent handleRequest_catch_ended
          server_error_body_def)
qed

lemma sample_matched:
  "findRoute [RouteNode ''/error'' [MethodNode ''GET'' h None] mws'] ''GET'' ''/error'' [] mws
     = Some \<lparr>matched_node = MethodNode ''GET'' h None, matched_params = Map.empty,
             matched_middlewares = mws @ mws'\<rparr>"
  by (simp add: Let_def method_matches_def checkPath_of_def matchPath_def path_parts_def
        joinPaths_def strip_slashes_def startsWith_colon_def)

text \<open>
  A middleware that throws, a middleware that throws below another that awaits it, a
  handler that throws a value that is not an \<^verbatim>\<open>Error\<close>, and a middleware that throws after
  it has ended the response.
\<close>

lemma handleRequest_error_caught_examples:
  "(\<forall>JSON_parse JSON_stringify.
     handleRequest sample_URL JSON_parse JSON_stringify
       (ServerRoot 3000
          [RouteNode ''/error''
             [MethodNode ''GET'' (\<lambda>ctx. ([], JString ''never'')) None]
             [\<lambda>ctx. [Do (Throw (ErrorObject ''denied''))]]]
          [])
       \<lparr>req_method = Some ''GET'', req_url = Some ''/error'', req_host = Some ''localhost'',
          req_stream = [End]\<rparr>
       \<lparr>statusCode = 200, headers = Map.empty, phase = Unsent, chunks = []\<rparr>
     = Resolved
         \<lparr>st_res =
            \<lparr>statusCode = 500,
               headers = [''content-type'' \<mapsto> ''application/json''],
               phase = Finished,
               chunks =
                 (if JSON_stringify
                       (JObject [(''error'', JString ''Internal Server Error''),
                                 (''message'', JString ''denied'')]) = []
                  then []
                  else [JSON_stringify
                          (JObject [(''error'', JString ''Internal Server Error''),
                                    (''message'', JString ''denied'')])])\<rparr>,
          st_index = 1, st_calls = [MiddlewareCalled 0]\<rparr>)
   \<and> (\<forall>JSON_parse JSON_stringify.
     handleRequest sample_URL JSON_parse JSON_stringify
       (ServerRoot 3000
          [RouteNode ''/error''
             [MethodNode ''GET'' (\<lambda>ctx. ([], JString ''never'')) None]
             [\<lambda>ctx. [AwaitNext, Do (SetStatus 201)],
              \<lambda>ctx. [Do (SetStatus 202), Do (Throw (ErrorObject ''inner''))]]]
          [])
       \<lparr>req_method = Some ''GET'', req_url = Some ''/error'', req_host = Some ''localhost'',
          req_stream = [End]\<rparr>
       \<lparr>statusCode = 200, headers = Map.empty, phase = Unsent, chunks = []\<rparr>
     = Resolved
         \<lparr>st_res =
            \<lparr>statusCode = 500,
               headers = [''content-type'' \<mapsto> ''application/json''],
               phase = Finished,
               chunks =
                 (if JSON_stringify
                       (JObject [(''error'', JString ''Internal Server Error''),
                                 (''message'', JString ''inner'')]) = []
                  then []
                  else [JSON_stringify
                          (JObject [(''error'', JString ''Internal Server Error''),
                                    (''message'', JString ''inner'')])])\<rparr>,
          st_index = 2, st_calls = [MiddlewareCalled 0, MiddlewareCalled 1]\<rparr>)
   \<and> (\<forall>JSON_parse JSON_stringify.
     handleRequest sample_URL JSON_parse JSON_stringify
       (ServerRoot 3000
          [RouteNode ''/error''
             [MethodNode ''GET'' (\<lambda>ctx. ([SetStatus 202, Throw NonError], Undefined)) None]
             [\<lambda>ctx. [AwaitNext]]]
          [])
       \<lparr>req_method = Some ''GET'', req_url = Some ''/error'', req_host = Some ''localhost'',
          req_stream = [End]\<rparr>
       \<lparr>statusCode = 200, headers = Map.empty, phase = Unsent, chunks = []\<rparr>
     = Resolved
         \<lparr>st_res =
            \<lparr>statusCode = 500,
               headers = [''content-type'' \<mapsto> ''application/json''],
               phase = Finished,
               chunks =
                 (if JSON_stringify
                       (JObject [(''error'', JString ''Internal Server Error''),
                                 (''message'', JString ''Unknown error'')]) = []
                  then []
                  else [JSON_stringify
                          (JObject [(''error'', JString ''Internal Server Error''),
                                    (''message'', JString ''Unknown error'')])])\<rparr>,
          st_index = 1, st_calls = [MiddlewareCalled 0, HandlerCalled]\<rparr>)
   \<and> (\<forall>JSON_parse JSON_stringify.
     handleRequest sample_URL JSON_parse JSON_stringify
       (ServerRoot 3000
          [RouteNode ''/error''
             [MethodNode ''GET'' (\<lambda>ctx. ([], Undefined)) None]
             [\<lambda>ctx. [Do (SetStatus 204), Do (EndResponse None), Do (Throw NonError)]]]
          [])
       \<lparr>req_method = Some ''GET'', req_url = Some ''/error'', req_host = Some ''localhost'',
          req_stream = [End]\<rparr>
       \<lparr>statusCode = 200, headers = Map.empty, phase = Unsent, chunks = []\<rparr>
     = Resolved
         \<lparr>st_res =
            \<lparr>statusCode = 204, headers = Map.empty, phase = Finished, chunks = []\<rparr>,
          st_index = 1, st_calls = [MiddlewareCalled 0]\<rparr>)"
proof (intro conjI allI)
  fix JSON_parse :: "string \<Rightarrow> jsvalue option" and JSON_stringify :: "jsvalue \<Rightarrow> string"
  let ?req = "\<lparr>req_method = Some ''GET'', req_url = Some ''/error'',
          req_host = Some ''localhost'', req_stream = [End]\<rparr>"
  let ?res = "\<lparr>statusCode = 200, headers = Map.empty, phase = Unsent, chunks = []\<rparr>"
  let ?h = "\<lambda>ctx :: RequestContext. ([] :: effect list, JString ''never'')"
  let ?mw = "\<lambda>ctx :: RequestContext. [Do (Throw (ErrorObject ''denied''))]"
  let ?ctx = "\<lparr>ctx_params = Map.empty, ctx_query = Map.empty, ctx_path = ''/error'',
      ctx_method = ''GET'', ctx_body = Undefined\<rparr>"
  let ?s = "\<lparr>st_res = ?res, st_index = 1, st_calls = [MiddlewareCalled 0]\<rparr>"
  have q: "parseQueryString [] = Inr Map.empty"
    by (simp add: parseQueryString_def)
  have b: "parseBody JSON_parse [End] = Resolved Undefined"
    by (simp add: parseBody_def)
  have chain: "run_next ?ctx [?mw] \<lparr>st_res = ?res, st_index = 0, st_calls = []\<rparr>
      = (Some (ErrorObject ''denied''), ?s)"
    by (simp add: run_next_def)
  show "handleRequest sample_URL JSON_parse JSON_stringify
       (ServerRoot 3000 [RouteNode ''/error'' [MethodNode ''GET'' ?h None] [?mw]] [])
       ?req ?res
     = Resolved
         \<lparr>st_res =
            \<lparr>statusCode = 500,
               headers = [''content-type'' \<mapsto> ''application/json''],
               phase = Finished,
               chunks =
                 (if JSON_stringify
                       (JObject [(''error'', JString ''Internal Server Error''),
                                 (''message'', JString ''denied'')]) = []
                  then []
                  else [JSON_stringify
                          (JObject [(''error'', JString ''Internal Server Error''),
                                    (''message'', JString ''denied'')])])\<rparr>,
          st_index = 1, st_calls = [MiddlewareCalled 0]\<rparr>"
    using handleRequest_error_caught [where new_URL = sample_URL and req = ?req
        and url = "\<lparr>url_pathname = ''/error'', url_search = []\<rparr>" and query = Map.empty
        and serverNode = "ServerRoot 3000
            [RouteNode ''/error'' [MethodNode ''GET'' ?h None] [?mw]] []"
        and matched = "\<lparr>matched_node = MethodNode ''GET'' ?h None, matched_params = Map.empty,
             matched_middlewares = [?mw]\<rparr>"
        and h = ?h and JSON_parse = JSON_parse and body = Undefined and ctx = ?ctx
        and JSON_stringify = JSON_stringify
        and res = ?res and error = "ErrorObject ''denied''" and s = ?s]
    by (simp add: sample_get sample_matched q b chain request_url_def request_base_def
          headersSent_def del: findRoute.simps)
next
  fix JSON_parse :: "string \<Rightarrow> jsvalue option" and JSON_stringify :: "jsvalue \<Rightarrow> string"
  let ?req = "\<lparr>req_method = Some ''GET'', req_url = Some ''/error'',
          req_host = Some ''localhost'', req_stream = [End]\<rparr>"
  let ?res = "\<lparr>statusCode = 200, headers = Map.empty, phase = Unsent, chunks = []\<rparr>"
  let ?res' = "\<lparr>statusCode = 202, headers = Map.empty, phase = Unsent, chunks = []\<rparr>"
  let ?h = "\<lambda>ctx :: RequestContext. ([] :: effect list, JString ''never'')"
  let ?outer = "\<lambda>ctx :: RequestContext. [AwaitNext, Do (SetStatus 201)]"
  let ?inner = "\<lambda>ctx :: RequestContext.
      [Do (SetStatus 202), Do (Throw (ErrorObject ''inner''))]"
  let ?ctx = "\<lparr>ctx_params = Map.empty, ctx_query = Map.empty, ctx_path = ''/error'',
      ctx_method = ''GET'', ctx_body = Undefined\<rparr>"
  let ?s = "\<lparr>st_res = ?res', st_index = 2,
      st_calls = [MiddlewareCalled 0, MiddlewareCalled 1]\<rparr>"
  have q: "parseQueryString [] = Inr Map.empty"
    by (simp add: parseQueryString_def)
  have b: "parseBody JSON_parse [End] = Resolved Undefined"
    by (simp add: parseBody_def)
  have chain: "run_next ?ctx [?outer, ?inner] \<lparr>st_res = ?res, st_index = 0, st_calls = []\<rparr>
      = (Some (ErrorObject ''inner''), ?s)"
    by (simp add: run_next_def)
  show "handleRequest sample_URL JSON_parse JSON_stringify
       (ServerRoot 3000 [RouteNode ''/error'' [MethodNode ''GET'' ?h None] [?outer, ?inner]] [])
       ?req ?res
     = Resolved
         \<lparr>st_res =
            \<lparr>statusCode = 500,
               headers = [''content-type'' \<mapsto> ''application/json''],
               phase = Finished,
               chunks =
                 (if JSON_stringify
                       (JObject [(''error'', JString ''Internal Server Error''),
                                 (''message'', JString ''inner'')]) = []
                  then []
                  else [JSON_stringify
                          (JObject [(''error'', JString ''Internal Server Error''),
                                    (''message'', JString ''inner'')])])\<rparr>,
          st_index = 2, st_calls = [MiddlewareCalled 0, MiddlewareCalled 1]\<rparr>"
    using handleRequest_error_caught [where new_URL = sample_URL and req = ?req
        and url = "\<lparr>url_pathname = ''/error'', url_search = []\<rparr>" and query = Map.empty
        and serverNode = "ServerRoot 3000
            [RouteNode ''/error'' [MethodNode ''GET'' ?h None] [?outer, ?inner]] []"
        and matched = "\<lparr>matched_node = MethodNode ''GET'' ?h None, matched_params = Map.empty,
             matched_middlewares = [?outer, ?inner]\<rparr>"
        and h = ?h and JSON_parse = JSON_parse and body = Undefined and ctx = ?ctx
        and JSON_stringify = JSON_stringify
        and res = ?res and error = "ErrorObject ''inner''" and s = ?s]
    by (simp add: sample_get sample_matched q b chain request_url_def request_base_def
          headersSent_def del: findRoute.simps)
next
  fix JSON_parse :: "string \<Rightarrow> jsvalue option" and JSON_stringify :: "jsvalue \<Rightarrow> string"
  let ?req = "\<lparr>req_method = Some ''GET'', req_url = Some ''/error'',
          req_host = Some ''localhost'', req_stream = [End]\<rparr>"
  let ?res = "\<lparr>statusCode = 200, headers = Map.empty, phase = Unsent, chunks = []\<rparr>"
  let ?res' = "\<lparr>statusCode = 202, headers = Map.empty, phase = Unsent, chunks = []\<rparr>"
  let ?h = "\<lambda>ctx :: RequestContext. ([SetStatus 202, Throw NonError], Undefined)"
  let ?mw = "\<lambda>ctx :: RequestContext. [AwaitNext]"
  let ?ctx = "\<lparr>ctx_params = Map.empty, ctx_query = Map.empty, ctx_path = ''/error'',
      ctx_method = ''GET'', ctx_body = Undefined\<rparr>"
  let ?s1 = "\<lparr>st_res = ?res, st_index = 1, st_calls = [MiddlewareCalled 0]\<rparr>"
  let ?s = "\<lparr>st_res = ?res', st_index = 1, st_calls = [MiddlewareCalled 0, HandlerCalled]\<rparr>"
  have q: "parseQueryString [] = Inr Map.empty"
    by (simp add: parseQueryString_def)
  have b: "parseBody JSON_parse [End] = Resolved Undefined"
    by (simp add: parseBody_def)
  have chain: "run_next ?ctx [?mw] \<lparr>st_res = ?res, st_index = 0, st_calls = []\<rparr> = (None, ?s1)"
    by (simp add: run_next_def)
  have thrown: "run_effects (fst (?h ?ctx)) (st_res ?s1) = (Some NonError, ?res')"
    by simp
  have escapes: "\<exists>s1 r. run_next ?ctx [?mw] \<lparr>st_res = ?res, st_index = 0, st_calls = []\<rparr>
        = (None, s1)
      \<and> run_effects (fst (?h ?ctx)) (st_res s1) = (Some NonError, r)
      \<and> ?s = s1\<lparr>st_calls := st_calls s1 @ [HandlerCalled], st_res := r\<rparr>"
    using chain thrown by (intro exI [of _ ?s1] exI [of _ ?res']) simp
  show "handleRequest sample_URL JSON_parse JSON_stringify
       (ServerRoot 3000 [RouteNode ''/error'' [MethodNode ''GET'' ?h None] [?mw]] [])
       ?req ?res
     = Resolved
         \<lparr>st_res =
            \<lparr>statusCode = 500,
               headers = [''content-type'' \<mapsto> ''application/json''],
               phase = Finished,
               chunks =
                 (if JSON_stringify
                       (JObject [(''error'', JString ''Internal Server Error''),
                                 (''message'', JString ''Unknown error'')]) = []
                  then []
                  else [JSON_stringify
                          (JObject [(''error'', JString ''Internal Server Error''),
                                    (''message'', JString ''Unknown error'')])])\<rparr>,
          st_index = 1, st_calls = [MiddlewareCalled 0, HandlerCalled]\<rparr>"
    using handleRequest_error_caught [where new_URL = sample_URL and req = ?req
        and url = "\<lparr>url_pathname = ''/error'', url_search = []\<rparr>" and query = Map.empty
        and serverNode = "ServerRoot 3000
            [RouteNode ''/error'' [MethodNode ''GET'' ?h None] [?mw]] []"
        and matched = "\<lparr>matched_node = MethodNode ''GET'' ?h None, matched_params = Map.empty,
             matched_middlewares = [?mw]\<rparr>"
        and h = ?h and JSON_parse = JSON_parse and body = Undefined and ctx = ?ctx
        and JSON_stringify = JSON_stringify
        and res = ?res and error = NonError and s = ?s] escapes
    by (simp add: sample_get sample_matched q b chain request_url_def request_base_def
          headersSent_def del: findRoute.simps)
next
  fix JSON_parse :: "string \<Rightarrow> jsvalue option" and JSON_stringify :: "jsvalue \<Rightarrow> string"
  let ?req = "\<lparr>req_method = Some ''GET'', req_url = Some ''/error'',
          req_host = Some ''localhost'', req_stream = [End]\<rparr>"
  let ?res = "\<lparr>statusCode = 200, headers = Map.empty, phase = Unsent, chunks = []\<rparr>"
  let ?res' = "\<lparr>statusCode = 204, headers = Map.empty, phase = Finished, chunks = []\<rparr>"
  let ?h = "\<lambda>ctx :: RequestContext. ([] :: effect list, Undefined)"
  let ?mw = "\<lambda>ctx :: RequestContext.
      [Do (SetStatus 204), Do (EndResponse None), Do (Throw NonError)]"
  let ?ctx = "\<lparr>ctx_params = Map.empty, ctx_query = Map.empty, ctx_path = ''/error'',
      ctx_method = ''GET'', ctx_body = Undefined\<rparr>"
  let ?s = "\<lparr>st_res = ?res', st_index = 1, st_calls = [MiddlewareCalled 0]\<rparr>"
  have q: "parseQueryString [] = Inr Map.empty"
    by (simp add: parseQueryString_def)
  have b: "parseBody JSON_parse [End] = Resolved Undefined"
    by (simp add: parseBody_def)
  have chain: "run_next ?ctx [?mw] \<lparr>st_res = ?res, st_index = 0, st_calls = []\<rparr>
      = (Some NonError, ?s)"
    by (simp add: run_next_def res_end_def writableEnded_def)
  show "handleRequest sample_URL JSON_parse JSON_stringify
       (ServerRoot 3000 [RouteNode ''/error'' [MethodNode ''GET'' ?h None] [?mw]] [])
       ?req ?res
     = Resolved \<lparr>st_res = ?res', st_index = 1, st_calls = [MiddlewareCalled 0]\<rparr>"
    using handleRequest_error_caught [where new_URL = sample_URL and req = ?req
        and url = "\<lparr>url_pathname = ''/error'', url_search = []\<rparr>" and query = Map.empty
        and serverNode = "ServerRoot 3000
            [RouteNode ''/error'' [MethodNode ''GET'' ?h None] [?mw]] []"
        and matched = "\<lparr>matched_node = MethodNode ''GET'' ?h None, matched_params = Map.empty,
             matched_middlewares = [?mw]\<rparr>"
        and h = ?h and JSON_parse = JSON_parse and body = Undefined and ctx = ?ctx
        and JSON_stringify = JSON_stringify
        and res = ?res and error = NonError and s = ?s]
    by (simp add: sample_get sample_matched q b chain request_url_def request_base_def
          headersSent_def writableEnded_def del: findRoute.simps)
qed

text \<open>
  Claim C3 does not hold of the code. The \<^verbatim>\<open>catch\<close> block sets the status 500 and calls
  \<^verbatim>\<open>setHeader\<close> whenever the response is not ended. When part of the response has been
  written before the error, the headers are sent with it: \<^verbatim>\<open>setHeader\<close> throws inside the
  \<^verbatim>\<open>catch\<close> block, the promise of the dispatcher is rejected, and the response is left
  begun and not ended, with no error body. In the request below the handler writes a
  chunk and then throws; the request target \<^verbatim>\<open>/stream\<close> parses to the path \<^verbatim>\<open>/stream\<close> and
  an empty query.
\<close>

theorem handleRequest_error_after_write:
  "new_URL ''/stream'' ''http://localhost''
     = Inr \<lparr>url_pathname = ''/stream'', url_search = []\<rparr> \<longrightarrow>
   run_effects [Write ''partial'', Throw (ErrorObject ''boom'')]
     \<lparr>statusCode = 200, headers = Map.empty, phase = Unsent, chunks = []\<rparr>
   = (Some (ErrorObject ''boom''),
      \<lparr>statusCode = 200, headers = Map.empty, phase = Started, chunks = [''partial'']\<rparr>)
   \<and> \<not> writableEnded
         \<lparr>statusCode = 200, headers = Map.empty, phase = Started, chunks = [''partial'']\<rparr>
   \<and> handleRequest new_URL JSON_parse JSON_stringify
       (ServerRoot 3000
          [RouteNode ''/stream''
             [MethodNode ''GET''
                (\<lambda>ctx. ([Write ''partial'', Throw (ErrorObject ''boom'')], Undefined)) None]
             []]
          [])
       \<lparr>req_method = Some ''GET'', req_url = Some ''/stream'',
          req_host = Some ''localhost'', req_stream = [End]\<rparr>
       \<lparr>statusCode = 200, headers = Map.empty, phase = Unsent, chunks = []\<rparr>
     = Rejected ERR_HTTP_HEADERS_SENT"
proof (intro impI)
  assume url: "new_URL ''/stream'' ''http://localhost''
     = Inr \<lparr>url_pathname = ''/stream'', url_search = []\<rparr>"
  have found: "findRoute [RouteNode ''/stream'' [MethodNode ''GET'' h None] mws']
      ''GET'' ''/stream'' [] mws
     = Some \<lparr>matched_node = MethodNode ''GET'' h None, matched_params = Map.empty,
             matched_middlewares = mws @ mws'\<rparr>" for h :: handler and mws mws' :: "middleware list"
    by (simp add: Let_def method_matches_def checkPath_of_def matchPath_def path_parts_def
        joinPaths_def strip_slashes_def startsWith_colon_def)
  have q: "parseQueryString [] = Inr Map.empty"
    by (simp add: parseQueryString_def)
  have b: "parseBody JSON_parse [End] = Resolved Undefined"
    by (simp add: parseBody_def)
  show "run_effects [Write ''partial'', Throw (ErrorObject ''boom'')]
     \<lparr>statusCode = 200, headers = Map.empty, phase = Unsent, chunks = []\<rparr>
   = (Some (ErrorObject ''boom''),
      \<lparr>statusCode = 200, headers = Map.empty, phase = Started, chunks = [''partial'']\<rparr>)
   \<and> \<not> writableEnded
         \<lparr>statusCode = 200, headers = Map.empty, phase = Started, chunks = [''partial'']\<rparr>
   \<and> handleRequest new_URL JSON_parse JSON_stringify
       (ServerRoot 3000
          [RouteNode ''/stream''
             [MethodNode ''GET''
                (\<lambda>ctx. ([Write ''partial'', Throw (ErrorObject ''boom'')], Undefined)) None]
             []]
          [])
       \<lparr>req_method = Some ''GET'', req_url = Some ''/stream'',
          req_host = Some ''localhost'', req_stream = [End]\<rparr>
       \<lparr>statusCode = 200, headers = Map.empty, phase = Unsent, chunks = []\<rparr>
     = Rejected ERR_HTTP_HEADERS_SENT"
    by (simp add: handleRequest_def sample_get q b found handleRequest_try_def run_next_def
          handleRequest_catch_def Let_def res_write_def setHeader_def headersSent_def
          writableEnded_def request_url_def request_base_def url del: findRoute.simps)
qed

theorem handleRequest_error_after_write_witness:
  "\<forall>JSON_parse JSON_stringify.
     run_effects [Write ''partial'', Throw (ErrorObject ''boom'')]
       \<lparr>statusCode = 200, headers = Map.empty, phase = Unsent, chunks = []\<rparr>
     = (Some (ErrorObject ''boom''),
        \<lparr>statusCode = 200, headers = Map.empty, phase = Started, chunks = [''partial'']\<rparr>)
     \<and> \<not> writableEnded
           \<lparr>statusCode = 200, headers = Map.empty, phase = Started, chunks = [''partial'']\<rparr>
     \<and> handleRequest sample_URL JSON_parse JSON_stringify
         (ServerRoot 3000
            [RouteNode ''/stream''
               [MethodNode ''GET''
                  (\<lambda>ctx. ([Write ''partial'', Throw (ErrorObject ''boom'')], Undefined)) None]
               []]
            [])
         \<lparr>req_method = Some ''GET'', req_url = Some ''/stream'',
            req_host = Some ''localhost'', req_stream = [End]\<rparr>
         \<lparr>statusCode = 200, headers = Map.empty, phase = Unsent, chunks = []\<rparr>
       = Rejected ERR_HTTP_HEADERS_SENT"
proof (intro allI)
  fix JSON_parse :: "string \<Rightarrow> jsvalue option" and JSON_stringify :: "jsvalue \<Rightarrow> string"
  show "run_effects [Write ''partial'', Throw (ErrorObject ''boom'')]
       \<lparr>statusCode = 200, headers = Map.empty, phase = Unsent, chunks = []\<rparr>
     = (Some (ErrorObject ''boom''),
        \<lparr>statusCode = 200, headers = Map.empty, phase = Started, chunks = [''partial'']\<rparr>)
     \<and> \<not> writableEnded
           \<lparr>statusCode = 200, headers = Map.empty, phase = Started, chunks = [''partial'']\<rparr>
     \<and> handleRequest sample_URL JSON_parse JSON_stringify
         (ServerRoot 3000
            [RouteNode ''/stream''
               [MethodNode ''GET''
                  (\<lambda>ctx. ([Write ''partial'', Throw (ErrorObject ''boom'')], Undefined)) None]
               []]
            [])
         \<lparr>req_method = Some ''GET'', req_url = Some ''/stream'',
            req_host = Some ''localhost'', req_stream = [End]\<rparr>
         \<lparr>statusCode = 200, headers = Map.empty, phase = Unsent, chunks = []\<rparr>
       = Rejected ERR_HTTP_HEADERS_SENT"
    using handleRequest_error_after_write [where new_URL = sample_URL
        and JSON_parse = JSON_parse and JSON_stringify = JSON_stringify]
    by simp
qed

subsection \<open>A middleware that does not call \<^verbatim>\<open>next\<close>\<close>

lemma handleRequest_try_calls_handler:
  assumes "run_next ctx mws s0 = (None, s1)"
    and "handleRequest_try JSON_stringify ctx mws (Some h) s0 = (outcome, s')"
  shows "HandlerCalled \<in> set (st_calls s')"
proof -
  obtain effects result where h: "h ctx = (effects, result)" by (cases "h ctx")
  obtain thrown_opt r where e: "run_effects effects (st_res s1) = (thrown_opt, r)"
    by (cases "run_effects effects (st_res s1)")
  from assms h e show ?thesis
    by (cases thrown_opt) (auto simp: handleRequest_try_def Let_def split: sum.splits if_splits)
qed

text \<open>
  Claim C1 does not hold of the code. \<^verbatim>\<open>handleRequest\<close> calls the handler right after
  \<^verbatim>\<open>await next()\<close> returns, whether or not the chain reached its end: in the first request
  below the guard ends the response with the status 401 and returns without calling
  \<^verbatim>\<open>next\<close>; the second middleware is never called and the cursor stays at 1 of 2, yet the
  handler is called. In the second request the guard sets the status and returns without
  ending the response, and the value the handler returns is sent as the body. The request
  target \<^verbatim>\<open>/protected\<close> parses to the path \<^verbatim>\<open>/protected\<close> and an empty query.
\<close>

theorem handleRequest_short_circuit_runs_handler:
  "new_URL ''/protected'' ''http://localhost''
     = Inr \<lparr>url_pathname = ''/protected'', url_search = []\<rparr> \<longrightarrow>
   handleRequest new_URL JSON_parse JSON_stringify
     (ServerRoot 3000
        [RouteNode ''/protected''
           [MethodNode ''GET'' (\<lambda>ctx. ([], JObject [(''secret'', JString ''data'')])) None]
           [\<lambda>ctx. [Do (SetStatus 401), Do (EndResponse (Some ''Unauthorized''))],
            \<lambda>ctx. [AwaitNext]]]
        [])
     \<lparr>req_method = Some ''GET'', req_url = Some ''/protected'', req_host = Some ''localhost'',
        req_stream = [End]\<rparr>
     \<lparr>statusCode = 200, headers = Map.empty, phase = Unsent, chunks = []\<rparr>
   = Resolved
       \<lparr>st_res = \<lparr>statusCode = 401, headers = Map.empty, phase = Finished,
                   chunks = [''Unauthorized'']\<rparr>,
        st_index = 1, st_calls = [MiddlewareCalled 0, HandlerCalled]\<rparr>
   \<and> handleRequest new_URL JSON_parse JSON_stringify
     (ServerRoot 3000
        [RouteNode ''/protected''
           [MethodNode ''GET'' (\<lambda>ctx. ([], JObject [(''secret'', JString ''data'')])) None]
           [\<lambda>ctx. [Do (SetStatus 401)], \<lambda>ctx. [AwaitNext]]]
        [])
     \<lparr>req_method = Some ''GET'', req_url = Some ''/protected'', req_host = Some ''localhost'',
        req_stream = [End]\<rparr>
     \<lparr>statusCode = 200, headers = Map.empty, phase = Unsent, chunks = []\<rparr>
   = Resolved
       \<lparr>st_res =
          \<lparr>statusCode = 401, headers = [''content-type'' \<mapsto> ''application/json''],
             phase = Finished,
             chunks =
               (if JSON_stringify (JObject [(''secret'', JString ''data'')]) = [] then []
                else [JSON_stringify (JObject [(''secret'', JString ''data'')])])\<rparr>,
        st_index = 1, st_calls = [MiddlewareCalled 0, HandlerCalled]\<rparr>"
proof (intro impI)
  assume url: "new_URL ''/protected'' ''http://localhost''
     = Inr \<lparr>url_pathname = ''/protected'', url_search = []\<rparr>"
  have found: "findRoute [RouteNode ''/protected'' [MethodNode ''GET'' h None] mws']
      ''GET'' ''/protected'' [] mws
     = Some \<lparr>matched_node = MethodNode ''GET'' h None, matched_params = Map.empty,
             matched_middlewares = mws @ mws'\<rparr>" for h :: handler and mws mws' :: "middleware list"
    by (simp add: Let_def method_matches_def checkPath_of_def matchPath_def path_parts_def
        joinPaths_def strip_slashes_def startsWith_colon_def)
  have q: "parseQueryString [] = Inr Map.empty"
    by (simp add: parseQueryString_def)
  have b: "parseBody JSON_parse [End] = Resolved Undefined"
    by (simp add: parseBody_def)
  show "handleRequest new_URL JSON_parse JSON_stringify
     (ServerRoot 3000
        [RouteNode ''/protected''
           [MethodNode ''GET'' (\<lambda>ctx. ([], JObject [(''secret'', JString ''data'')])) None]
           [\<lambda>ctx. [Do (SetStatus 401), Do (EndResponse (Some ''Unauthorized''))],
            \<lambda>ctx. [AwaitNext]]]
        [])
     \<lparr>req_method = Some ''GET'', req_url = Some ''/protected'', req_host = Some ''localhost'',
        req_stream = [End]\<rparr>
     \<lparr>statusCode = 200, headers = Map.empty, phase = Unsent, chunks = []\<rparr>
   = Resolved
       \<lparr>st_res = \<lparr>statusCode = 401, headers = Map.empty, phase = Finished,
                   chunks = [''Unauthorized'']\<rparr>,
        st_index = 1, st_calls = [MiddlewareCalled 0, HandlerCalled]\<rparr>
   \<and> handleRequest new_URL JSON_parse JSON_stringify
     (ServerRoot 3000
        [RouteNode ''/protected''
           [MethodNode ''GET'' (\<lambda>ctx. ([], JObject [(''secret'', JString ''data'')])) None]
           [\<lambda>ctx. [Do (SetStatus 401)], \<lambda>ctx. [AwaitNext]]]
        [])
     \<lparr>req_method = Some ''GET'', req_url = Some ''/protected'', req_host = Some ''localhost'',
        req_stream = [End]\<rparr>
     \<lparr>statusCode = 200, headers = Map.empty, phase = Unsent, chunks = []\<rparr>
   = Resolved
       \<lparr>st_res =
          \<lparr>statusCode = 401, headers = [''content-type'' \<mapsto> ''application/json''],
             phase = Finished,
             chunks =
               (if JSON_stringify (JObject [(''secret'', JString ''data'')]) = [] then []
                else [JSON_stringify (JObject [(''secret'', JString ''data'')])])\<rparr>,
        st_index = 1, st_calls = [MiddlewareCalled 0, HandlerCalled]\<rparr>"
    by (simp add: handleRequest_def sample_get q b found handleRequest_try_def run_next_def
          Let_def res_end_def setHeader_def headersSent_def writableEnded_def
          content_type_lower request_url_def request_base_def url del: findRoute.simps)
qed

theorem handleRequest_short_circuit_runs_handler_witness:
  "\<forall>JSON_parse JSON_stringify.
   handleRequest sample_URL JSON_parse JSON_stringify
     (ServerRoot 3000
        [RouteNode ''/protected''
           [MethodNode ''GET'' (\<lambda>ctx. ([], JObject [(''secret'', JString ''data'')])) None]
           [\<lambda>ctx. [Do (SetStatus 401), Do (EndResponse (Some ''Unauthorized''))],
            \<lambda>ctx. [AwaitNext]]]
        [])
     \<lparr>req_method = Some ''GET'', req_url = Some ''/protected'', req_host = Some ''localhost'',
        req_stream = [End]\<rparr>
     \<lparr>statusCode = 200, headers = Map.empty, phase = Unsent, chunks = []\<rparr>
   = Resolved
       \<lparr>st_res = \<lparr>statusCode = 401, headers = Map.empty, phase = Finished,
                   chunks = [''Unauthorized'']\<rparr>,
        st_index = 1, st_calls = [MiddlewareCalled 0, HandlerCalled]\<rparr>
   \<and> handleRequest sample_URL JSON_parse JSON_stringify
     (ServerRoot 3000
        [RouteNode ''/protected''
           [MethodNode ''GET'' (\<lambda>ctx. ([], JObject [(''secret'', JString ''data'')])) None]
           [\<lambda>ctx. [Do (SetStatus 401)], \<lambda>ctx. [AwaitNext]]]
        [])
     \<lparr>req_method = Some ''GET'', req_url = Some ''/protected'', req_host = Some ''localhost'',
        req_stream = [End]\<rparr>
     \<lparr>statusCode = 200, headers = Map.empty, phase = Unsent, chunks = []\<rparr>
   = Resolved
       \<lparr>st_res =
          \<lparr>statusCode = 401, headers = [''content-type'' \<mapsto> ''application/json''],
             phase = Finished,
             chunks =
               (if JSON_stringify (JObject [(''secret'', JString ''data'')]) = [] then []
                else [JSON_stringify (JObject [(''secret'', JString ''data'')])])\<rparr>,
        st_index = 1, st_calls = [MiddlewareCalled 0, HandlerCalled]\<rparr>"
proof (intro allI)
  fix JSON_parse :: "string \<Rightarrow> jsvalue option" and JSON_stringify :: "jsvalue \<Rightarrow> string"
  show "handleRequest sample_URL JSON_parse JSON_stringify
     (ServerRoot 3000
        [RouteNode ''/protected''
           [MethodNode ''GET'' (\<lambda>ctx. ([], JObject [(''secret'', JString ''data'')])) None]
           [\<lambda>ctx. [Do (SetStatus 401), Do (EndResponse (Some ''Unauthorized''))],
            \<lambda>ctx. [AwaitNext]]]
        [])
     \<lparr>req_method = Some ''GET'', req_url = Some ''/protected'', req_host = Some ''localhost'',
        req_stream = [End]\<rparr>
     \<lparr>statusCode = 200, headers = Map.empty, phase = Unsent, chunks = []\<rparr>
   = Resolved
       \<lparr>st_res = \<lparr>statusCode = 401, headers = Map.empty, phase = Finished,
                   chunks = [''Unauthorized'']\<rparr>,
        st_index = 1, st_calls = [MiddlewareCalled 0, HandlerCalled]\<rparr>
   \<and> handleRequest sample_URL JSON_parse JSON_stringify
     (ServerRoot 3000
        [RouteNode ''/protected''
           [MethodNode ''GET'' (\<lambda>ctx. ([], JObject [(''secret'', JString ''data'')])) None]
           [\<lambda>ctx. [Do (SetStatus 401)], \<lambda>ctx. [AwaitNext]]]
        [])
     \<lparr>req_method = Some ''GET'', req_url = Some ''/protected'', req_host = Some ''localhost'',
        req_stream = [End]\<rparr>
     \<lparr>statusCode = 200, headers = Map.empty, phase = Unsent, chunks = []\<rparr>
   = Resolved
       \<lparr>st_res =
          \<lparr>statusCode = 401, headers = [''content-type'' \<mapsto> ''application/json''],
             phase = Finished,
             chunks =
               (if JSON_stringify (JObject [(''secret'', JString ''data'')]) = [] then []
                else [JSON_stringify (JObject [(''secret'', JString ''data'')])])\<rparr>,
        st_index = 1, st_calls = [MiddlewareCalled 0, HandlerCalled]\<rparr>"
    using handleRequest_short_circuit_runs_handler [where new_URL = sample_URL
        and JSON_parse = JSON_parse and JSON_stringify = JSON_stringify]
    by simp
qed

end
